theory Spec2Isabelle
  imports Complex_Main
begin

section \<open>Scanning the command line: \<open>getopt_long\<close>\<close>

text \<open>
  \<open>parseCmdLine\<close> calls the C library's \<open>getopt_long\<close> in a loop. The library is not
  part of the program, so it is modelled here after the GNU implementation (glibc's
  \<open>_getopt_internal_r\<close>), for the features the program's option table can reach:
  short options in clusters, with their argument attached or in the next element; long
  options, exact or abbreviated, with \<open>=value\<close> or with the value in the next element;
  the \<open>--\<close> terminator; elements that are no options are passed over (glibc permutes
  them to the end of \<open>argv\<close>, which only moves elements that were already scanned, so
  \<open>argv[optind - 1]\<close> read right after a return is the element at that index of the
  original \<open>argv\<close>). The option string starts with \<open>:\<close>, so a missing argument is
  returned as \<open>:\<close> and nothing is printed by the library. The environment variable
  \<open>POSIXLY_CORRECT\<close>, which would stop the scan at the first element that is no option, is
  taken as not set.
\<close>

datatype has_arg = no_argument | required_argument

text \<open>\<open>struct option\<close>; the \<open>flag\<close> member is 0 in every row of the program's table.\<close>

record long_option =
  name :: string
  has_arg :: has_arg
  val :: char

text \<open>The table and the option string of \<open>parseCmdLine\<close>.\<close>

definition getopts :: "long_option list" where
  "getopts =
    [\<lparr>name = ''output'', has_arg = required_argument, val = CHR ''o''\<rparr>,
     \<lparr>name = ''interval'', has_arg = required_argument, val = CHR ''i''\<rparr>,
     \<lparr>name = ''ncpu'', has_arg = required_argument, val = CHR ''c''\<rparr>,
     \<lparr>name = ''samples'', has_arg = required_argument, val = CHR ''n''\<rparr>,
     \<lparr>name = ''help'', has_arg = no_argument, val = CHR ''h''\<rparr>]"

definition optstring :: string where
  "optstring = '':ho:c:n:i:''"

text \<open>
  One return of \<open>getopt_long\<close>: the value returned, and \<open>optarg\<close> and \<open>optind\<close> as they
  stand on return (\<open>optarg\<close> is \<open>None\<close> for the null pointer).
\<close>

record getopt_ret =
  opt :: char
  optarg :: "string option"
  optind :: nat

text \<open>\<open>NONOPTION_P\<close>: the element does not start with \<open>-\<close>, or is \<open>-\<close> alone.\<close>

fun nonoption :: "string \<Rightarrow> bool" where
  "nonoption [] = True"
| "nonoption (x # xs) = (x \<noteq> CHR ''-'' \<or> xs = [])"

text \<open>
  \<open>strchr (optstring, c)\<close> and the test of the character after it: whether the short
  option \<open>c\<close> is known, and whether it takes an argument. \<open>:\<close> is never an option.
\<close>

fun short_lookup :: "string \<Rightarrow> char \<Rightarrow> has_arg option" where
  "short_lookup [] c = None"
| "short_lookup (x # xs) c =
     (if x = c then
        (if c = CHR '':'' then None
         else if take 1 xs = '':'' then Some required_argument
         else Some no_argument)
      else short_lookup xs c)"

text \<open>
  \<open>process_long_option\<close>'s search: an exact match of the name wins; otherwise the names
  the given one abbreviates (\<open>strncmp\<close> over its length), of which the first is taken
  unless a later one differs in \<open>has_arg\<close> or \<open>val\<close> (ambiguous). \<open>None\<close>: unknown or
  ambiguous.
\<close>

definition long_lookup :: "long_option list \<Rightarrow> string \<Rightarrow> long_option option" where
  "long_lookup tab nm =
     (case filter (\<lambda>p. name p = nm) tab of
        p # ps \<Rightarrow> Some p
      | [] \<Rightarrow>
         (case filter (\<lambda>p. take (length nm) (name p) = nm) tab of
            [] \<Rightarrow> None
          | p # ps \<Rightarrow>
              if list_all (\<lambda>q. has_arg q = has_arg p \<and> val q = val p) ps then Some p
              else None))"

text \<open>
  \<open>process_long_option\<close>, for an element \<open>--name\<close> or \<open>--name=value\<close> at index \<open>ind\<close>
  (\<open>s\<close> is the element without its two dashes, \<open>rest\<close> the elements after it): what
  \<open>getopt_long\<close> returns, and the elements left to scan.
\<close>

definition process_long_option ::
  "nat \<Rightarrow> string \<Rightarrow> string list \<Rightarrow> getopt_ret \<times> string list" where
  "process_long_option ind s rest =
     (let nm = takeWhile (\<lambda>c. c \<noteq> CHR ''='') s;
          nameend = dropWhile (\<lambda>c. c \<noteq> CHR ''='') s
      in case long_lookup getopts nm of
           None \<Rightarrow> (\<lparr>opt = CHR ''?'', optarg = None, optind = ind + 1\<rparr>, rest)
         | Some p \<Rightarrow>
             if nameend \<noteq> [] then
               (if has_arg p = required_argument
                then (\<lparr>opt = val p, optarg = Some (tl nameend), optind = ind + 1\<rparr>, rest)
                else (\<lparr>opt = CHR ''?'', optarg = None, optind = ind + 1\<rparr>, rest))
             else if has_arg p = required_argument then
               (case rest of
                  [] \<Rightarrow> (\<lparr>opt = CHR '':'', optarg = None, optind = ind + 1\<rparr>, [])
                | v # rest' \<Rightarrow> (\<lparr>opt = val p, optarg = Some v, optind = ind + 2\<rparr>, rest'))
             else (\<lparr>opt = val p, optarg = None, optind = ind + 1\<rparr>, rest))"

text \<open>
  The handling of the next short option character \<open>c\<close> of the element at index \<open>ind\<close>
  (\<open>cs\<close> is what follows \<open>c\<close> in the element): what \<open>getopt_long\<close> returns, what is left
  of the element, and the elements left to scan. \<open>optind\<close> moves on when \<open>c\<close> is the
  last character of its element, and once more when the next element is taken as the
  argument.
\<close>

definition short_option ::
  "nat \<Rightarrow> char \<Rightarrow> string \<Rightarrow> string list \<Rightarrow> getopt_ret \<times> string \<times> string list" where
  "short_option ind c cs rest =
     (let ind' = (if cs = [] then ind + 1 else ind)
      in case short_lookup optstring c of
           None \<Rightarrow> (\<lparr>opt = CHR ''?'', optarg = None, optind = ind'\<rparr>, cs, rest)
         | Some no_argument \<Rightarrow> (\<lparr>opt = c, optarg = None, optind = ind'\<rparr>, cs, rest)
         | Some required_argument \<Rightarrow>
             if cs \<noteq> [] then (\<lparr>opt = c, optarg = Some cs, optind = ind + 1\<rparr>, [], rest)
             else
               (case rest of
                  [] \<Rightarrow> (\<lparr>opt = CHR '':'', optarg = None, optind = ind'\<rparr>, [], [])
                | v # rest' \<Rightarrow> (\<lparr>opt = c, optarg = Some v, optind = ind' + 1\<rparr>, [], rest')))"

text \<open>
  The returns of the successive calls of \<open>getopt_long (argc, argv, optstring, getopts, NULL)\<close>
  up to the call that returns -1. The arguments are the library's state: \<open>optind\<close>,
  \<open>nextchar\<close> (what is left of the cluster of short options being scanned, empty when
  none is), and the elements of \<open>argv\<close> not looked at yet (from \<open>optind\<close> on, or from
  \<open>optind + 1\<close> on inside a cluster).
\<close>

function getopt_long :: "nat \<Rightarrow> string \<Rightarrow> string list \<Rightarrow> getopt_ret list" where
  "getopt_long ind [] [] = []"
| "getopt_long ind [] (a # rest) =
     (if nonoption a then getopt_long (ind + 1) [] rest
      else if a = ''--'' then []
      else if take 2 a = ''--'' then
        (let step = process_long_option ind (drop 2 a) rest
         in fst step # getopt_long (optind (fst step)) [] (snd step))
      else getopt_long ind (tl a) rest)"
| "getopt_long ind (c # cs) rest =
     (let step = short_option ind c cs rest
      in fst step # getopt_long (optind (fst step)) (fst (snd step)) (snd (snd step)))"
  by pat_completeness auto
termination
proof (relation "measures [\<lambda>(ind, nc, rest). length rest, \<lambda>(ind, nc, rest). length nc]")
  show "wf (measures [\<lambda>(ind, nc, rest). length rest, \<lambda>(ind, nc, rest). length nc])"
    by simp
next
  fix ind :: nat and a :: string and rest :: "string list"
  show "((ind + 1, [], rest), ind, [], a # rest)
          \<in> measures [\<lambda>(ind, nc, rest). length rest, \<lambda>(ind, nc, rest). length nc]"
    by simp
next
  fix ind :: nat and a :: string and rest :: "string list" and x
  assume "x = process_long_option ind (drop 2 a) rest"
  moreover have "length (snd (process_long_option ind (drop 2 a) rest)) \<le> length rest"
    by (simp add: process_long_option_def Let_def split: option.split list.split)
  ultimately show "((optind (fst x), [], snd x), ind, [], a # rest)
          \<in> measures [\<lambda>(ind, nc, rest). length rest, \<lambda>(ind, nc, rest). length nc]"
    by simp
next
  fix ind :: nat and a :: string and rest :: "string list"
  show "((ind, tl a, rest), ind, [], a # rest)
          \<in> measures [\<lambda>(ind, nc, rest). length rest, \<lambda>(ind, nc, rest). length nc]"
    by simp
next
  fix ind :: nat and c :: char and cs :: string and rest :: "string list" and x
  assume "x = short_option ind c cs rest"
  moreover have "length (snd (snd (short_option ind c cs rest))) \<le> length rest"
    by (simp add: short_option_def Let_def split: option.split has_arg.split list.split)
  moreover have "length (fst (snd (short_option ind c cs rest))) \<le> length cs"
    by (simp add: short_option_def Let_def split: option.split has_arg.split list.split)
  ultimately show "((optind (fst x), fst (snd x), snd (snd x)), ind, c # cs, rest)
          \<in> measures [\<lambda>(ind, nc, rest). length rest, \<lambda>(ind, nc, rest). length nc]"
    by (auto simp: case_prod_beta)
qed

section \<open>The command line parser: \<open>parseCmdLine\<close>\<close>

text \<open>
  \<open>struct options\<close>. \<open>output_path\<close> is the pointer \<open>output\<close> (\<open>None\<close> for \<open>NULL\<close>). The
  doubles of the program are idealised as reals: no rounding, no overflow. \<open>ncpu\<close> and
  \<open>avg\<close> are C \<open>int\<close>s, modelled as integers kept in the 32-bit range by \<open>int32\<close>. The
  one-bit field \<open>given_h\<close> is zero or not.
\<close>

record options =
  output_path :: "string option"
  interval :: real
  ncpu :: int
  avg :: int
  given_h :: bool

text \<open>
  The value of an \<open>int\<close> expression whose mathematical value is \<open>x\<close>: C leaves signed
  overflow undefined; the model takes the two's complement wrap-around that the usual
  compilers produce for this code.
\<close>

definition int32 :: "int \<Rightarrow> int" where
  "int32 x = (x + 2147483648) mod 4294967296 - 2147483648"

text \<open>The test \<open>*c < '0' || *c > '9'\<close> and the value \<open>*c - '0'\<close>.\<close>

definition nondigit :: "char \<Rightarrow> bool" where
  "nondigit c = ((of_char c :: nat) < 48 \<or> (of_char c :: nat) > 57)"

definition digit_val :: "char \<Rightarrow> int" where
  "digit_val c = int (of_char c) - 48"

text \<open>
  The conversion loop of the cases \<open>'c'\<close> and \<open>'n'\<close>: the value accumulated in \<open>v\<close>, and
  whether the loop met a character that is no digit (it then records \<open>optarg\<close> as bad and
  stops).
\<close>

fun conv_int :: "int \<Rightarrow> string \<Rightarrow> int \<times> bool" where
  "conv_int v [] = (v, False)"
| "conv_int v (c # cs) =
     (if nondigit c then (v, True)
      else conv_int (int32 (v * 10 + digit_val c)) cs)"

text \<open>
  The three loops of case \<open>'i'\<close>. The first reads digits into \<open>d\<close> and stops at the end of
  the string or at the first other character: the result is \<open>d\<close> and the string from
  where \<open>c\<close> stopped.
\<close>

fun interval_whole :: "real \<Rightarrow> string \<Rightarrow> real \<times> string" where
  "interval_whole d [] = (d, [])"
| "interval_whole d (c # cs) =
     (if nondigit c then (d, c # cs)
      else interval_whole (d * 10 + real_of_int (digit_val c)) cs)"

text \<open>The second, after a dot: \<open>d\<close>, the number \<open>v\<close> of digits read, and whether it broke off.\<close>

fun interval_fraction :: "real \<Rightarrow> nat \<Rightarrow> string \<Rightarrow> real \<times> nat \<times> bool" where
  "interval_fraction d v [] = (d, v, False)"
| "interval_fraction d v (c # cs) =
     (if nondigit c then (d, v, True)
      else interval_fraction (d * 10 + real_of_int (digit_val c)) (v + 1) cs)"

text \<open>The third: \<open>for (; v; v--) d /= 10\<close>.\<close>

fun interval_scale :: "nat \<Rightarrow> real \<Rightarrow> real" where
  "interval_scale 0 d = d"
| "interval_scale (Suc v) d = interval_scale v (d / 10)"

text \<open>
  Case \<open>'i'\<close> as a whole: the value stored in \<open>options->interval\<close>, and the entries added
  to \<open>given_badinterval\<close>.
\<close>

definition conv_interval :: "string \<Rightarrow> real \<times> string list" where
  "conv_interval a =
     (case interval_whole 0 a of
        (d, c) \<Rightarrow>
          (let bad1 = (if c \<noteq> [] \<and> hd c \<noteq> CHR ''.'' then [a] else [])
           in if c \<noteq> [] \<and> hd c = CHR ''.'' then
                (case interval_fraction d 0 (tl c) of
                   (d', v, broke) \<Rightarrow>
                     (interval_scale v d', bad1 @ (if broke then [a] else [])))
              else (d, bad1)))"

text \<open>
  The local variables of \<open>parseCmdLine\<close>, with the structure it fills. An array with its
  counter (\<open>given_badinterval\<close> and \<open>badintervals\<close>, \<open>missing\<close> and \<open>nmissing\<close>, ...) is the
  list of the entries stored so far. \<open>unrecognized\<close> is indexed by position in \<open>argv\<close>
  and starts with \<open>argc\<close> null pointers.
\<close>

record parse_state =
  opts :: options
  given_o :: nat
  given_i :: nat
  given_c :: nat
  given_n :: nat
  given_badinterval :: "string list"
  given_badncpu :: "string list"
  given_badavg :: "string list"
  nunrecognized :: nat
  unrecognized :: "string option list"
  missing :: "string list"

definition init_state :: "string list \<Rightarrow> parse_state" where
  "init_state argv =
     \<lparr>opts = \<lparr>output_path = None, interval = 1, ncpu = 0, avg = 1, given_h = False\<rparr>,
      given_o = 0, given_i = 0, given_c = 0, given_n = 0,
      given_badinterval = [], given_badncpu = [], given_badavg = [],
      nunrecognized = 0,
      unrecognized = replicate (length argv) None,
      missing = []\<rparr>"

text \<open>
  How the \<open>while\<close> loop over the returns of \<open>getopt_long\<close> ends: by a \<open>return\<close> inside the
  \<open>switch\<close>, by \<open>getopt_long\<close> returning -1, or by reading through a null \<open>optarg\<close>
  (which \<open>getopt_long\<close> never hands out for an option that takes an argument).
\<close>

datatype loop_end = Return int parse_state | Scanned parse_state | Null_optarg

text \<open>One pass through the body of the \<open>switch\<close>, for the cases that \<open>break\<close>.\<close>

definition case_o :: "getopt_ret \<Rightarrow> parse_state \<Rightarrow> parse_state" where
  "case_o r s = s\<lparr>given_o := given_o s + 1, opts := (opts s)\<lparr>output_path := optarg r\<rparr>\<rparr>"

definition case_i :: "string \<Rightarrow> parse_state \<Rightarrow> parse_state" where
  "case_i a s =
     (case conv_interval a of
        (d, bad) \<Rightarrow>
          s\<lparr>given_i := given_i s + 1,
            given_badinterval := given_badinterval s @ bad,
            opts := (opts s)\<lparr>interval := d\<rparr>\<rparr>)"

definition case_c :: "string \<Rightarrow> parse_state \<Rightarrow> parse_state" where
  "case_c a s =
     (case conv_int 0 a of
        (v, bad) \<Rightarrow>
          s\<lparr>given_c := given_c s + 1,
            given_badncpu := given_badncpu s @ (if bad then [a] else []),
            opts := (opts s)\<lparr>ncpu := v\<rparr>\<rparr>)"

definition case_n :: "string \<Rightarrow> parse_state \<Rightarrow> parse_state" where
  "case_n a s =
     (case conv_int 0 a of
        (v, bad) \<Rightarrow>
          s\<lparr>given_n := given_n s + 1,
            given_badavg := given_badavg s @ (if bad then [a] else []),
            opts := (opts s)\<lparr>avg := v\<rparr>\<rparr>)"

text \<open>
  Cases \<open>'?'\<close> and \<open>':'\<close> read \<open>argv[optind - 1]\<close>; \<open>optind\<close> is at least 1 and at most
  \<open>argc\<close> there, so the read is in range for every return of \<open>getopt_long\<close> (lemma
  \<open>getopt_returns_optind\<close> below).
\<close>

definition case_unrecognised :: "string list \<Rightarrow> getopt_ret \<Rightarrow> parse_state \<Rightarrow> parse_state" where
  "case_unrecognised argv r s =
     s\<lparr>nunrecognized := nunrecognized s + 1,
       unrecognized := (unrecognized s)[optind r - 1 := Some (argv ! (optind r - 1))]\<rparr>"

definition case_missing :: "string list \<Rightarrow> getopt_ret \<Rightarrow> parse_state \<Rightarrow> parse_state" where
  "case_missing argv r s = s\<lparr>missing := missing s @ [argv ! (optind r - 1)]\<rparr>"

text \<open>The loop \<open>while ((opt = getopt_long (...)) != -1) switch (opt) ...\<close>.\<close>

fun parse_loop :: "string list \<Rightarrow> getopt_ret list \<Rightarrow> parse_state \<Rightarrow> loop_end" where
  "parse_loop argv [] s = Scanned s"
| "parse_loop argv (r # rs) s =
     (if opt r = CHR ''h'' then
        Return 0 (s\<lparr>opts := (opts s)\<lparr>given_h := True\<rparr>\<rparr>)
      else if opt r = CHR ''o'' then parse_loop argv rs (case_o r s)
      else if opt r = CHR ''i'' then
        (case optarg r of
           None \<Rightarrow> Null_optarg
         | Some a \<Rightarrow> parse_loop argv rs (case_i a s))
      else if opt r = CHR ''c'' then
        (case optarg r of
           None \<Rightarrow> Null_optarg
         | Some a \<Rightarrow> parse_loop argv rs (case_c a s))
      else if opt r = CHR ''n'' then
        (case optarg r of
           None \<Rightarrow> Null_optarg
         | Some a \<Rightarrow> parse_loop argv rs (case_n a s))
      else if opt r = CHR ''?'' then parse_loop argv rs (case_unrecognised argv r s)
      else if opt r = CHR '':'' then parse_loop argv rs (case_missing argv r s)
      else Return (- 1) s)"

text \<open>
  What the program prints to \<open>stderr\<close>, one value for each \<open>fprintf\<close> block: the
  numbers and strings that the block puts into its line. The first thirteen are
  \<open>parseCmdLine\<close>'s, \<open>Usage\<close> and \<open>Error_in_usleep\<close> are \<open>main\<close>'s, the rest are
  \<open>readuptime\<close>'s and \<open>writeutil\<close>'s.
\<close>

datatype diagnostic =
    Errors_processing
  | Not_recognised nat "string list"
  | Without_argument nat "string list"
  | Output_repeated nat
  | Output_not_given
  | Interval_repeated nat
  | Interval_improper nat "string list"
  | Cpus_repeated nat
  | Cpus_not_given
  | Cpus_improper nat "string list"
  | Samples_repeated nat
  | Samples_improper nat "string list"
  | Unknown_error
  | Usage
  | Error_in_usleep
  | Could_not_open_uptime
  | Error_scanning_uptime
  | Could_not_open string

text \<open>
  The two loops that print the entries of \<open>unrecognized\<close>: the first prints the first
  entry that is set and leaves \<open>i\<close> behind it; the second prints the entries that are set
  from there on, and steps over the index after each one it prints (its body increments
  \<open>i\<close>, and so does the loop).
\<close>

fun unrecognized_rest :: "string option list \<Rightarrow> string list" where
  "unrecognized_rest [] = []"
| "unrecognized_rest (None # xs) = unrecognized_rest xs"
| "unrecognized_rest [Some t] = [t]"
| "unrecognized_rest (Some t # x # xs) = t # unrecognized_rest xs"

fun unrecognized_first :: "string option list \<Rightarrow> string list" where
  "unrecognized_first [] = []"
| "unrecognized_first (None # xs) = unrecognized_first xs"
| "unrecognized_first (Some t # xs) = t # unrecognized_rest xs"

text \<open>The condition under which the heading line is printed.\<close>

definition heading :: "parse_state \<Rightarrow> bool" where
  "heading s =
     (nunrecognized s \<noteq> 0 \<or> missing s \<noteq> [] \<or> given_badinterval s \<noteq> [] \<or>
      given_badncpu s \<noteq> [] \<or> given_o s > 1 \<or> given_i s > 1 \<or> given_c s > 1 \<or>
      given_n s > 1 \<or> given_o s = 0 \<or> given_c s = 0)"

text \<open>
  The blocks after the loop, in the order of the source. Each block that runs prints one
  line and increments \<open>errors\<close>, so \<open>errors\<close> ends as the number of lines of \<open>report\<close>.
\<close>

definition report :: "parse_state \<Rightarrow> diagnostic list" where
  "report s =
     (if nunrecognized s \<noteq> 0
      then [Not_recognised (nunrecognized s) (unrecognized_first (unrecognized s))] else []) @
     (if missing s \<noteq> []
      then [Without_argument (length (missing s)) (missing s)] else []) @
     (if given_o s > 1 then [Output_repeated (given_o s)] else []) @
     (if given_o s = 0 then [Output_not_given] else []) @
     (if given_i s > 1 then [Interval_repeated (given_i s)] else []) @
     (if given_badinterval s \<noteq> []
      then [Interval_improper (length (given_badinterval s)) (given_badinterval s)] else []) @
     (if given_c s > 1 then [Cpus_repeated (given_c s)] else []) @
     (if given_c s = 0 then [Cpus_not_given] else []) @
     (if given_badncpu s \<noteq> []
      then [Cpus_improper (length (given_badncpu s)) (given_badncpu s)] else []) @
     (if given_n s > 1 then [Samples_repeated (given_n s)] else []) @
     (if given_badavg s \<noteq> []
      then [Samples_improper (length (given_badavg s)) (given_badavg s)] else [])"

definition errors :: "parse_state \<Rightarrow> nat" where
  "errors s = length (report s)"

text \<open>
  \<open>parseCmdLine\<close>: the value returned, the structure as it leaves it, and the lines
  printed. \<open>None\<close> stands for the fault of reading through a null \<open>optarg\<close>.
\<close>

record parsed =
  returned :: int
  filled :: options
  printed :: "diagnostic list"

text \<open>
  The calls of \<open>getopt_long\<close> on a command line: \<open>optind\<close> starts at 1, so \<open>argv[0]\<close>
  is not scanned.
\<close>

definition getopt_returns :: "string list \<Rightarrow> getopt_ret list" where
  "getopt_returns argv = getopt_long 1 [] (drop 1 argv)"

definition parseCmdLine :: "string list \<Rightarrow> parsed option" where
  "parseCmdLine argv =
     (case parse_loop argv (getopt_returns argv) (init_state argv) of
        Null_optarg \<Rightarrow> None
      | Return r s \<Rightarrow>
          Some \<lparr>returned = r, filled = opts s,
                printed = (if r < 0 then [Unknown_error] else [])\<rparr>
      | Scanned s \<Rightarrow>
          Some \<lparr>returned = (if errors s \<noteq> 0 then - 1 else 0), filled = opts s,
                printed = (if heading s then [Errors_processing] else []) @ report s\<rparr>)"

section \<open>The sampling engine\<close>

subsection \<open>Doubles\<close>

text \<open>
  A \<open>double\<close> is a real number, an infinity (\<open>True\<close> for the negative one) or a NaN.
  The finite values are idealised: the operations below are exact, there are no signed
  zeros, and a zero divisor counts as positive (the zero divisors of this program are a
  difference of two equal numbers and an \<open>int\<close> converted to \<open>double\<close>, both \<open>+0.0\<close>).
  On the special values the operations are those of IEEE 754.
\<close>

datatype double = Finite real | Infinity bool | NaN

fun ddiv :: "double \<Rightarrow> double \<Rightarrow> double" where
  "ddiv (Finite a) (Finite b) =
     (if b \<noteq> 0 then Finite (a / b) else if a = 0 then NaN else Infinity (a < 0))"
| "ddiv (Finite a) (Infinity n) = Finite 0"
| "ddiv (Infinity m) (Finite b) = Infinity (m \<noteq> (b < 0))"
| "ddiv (Infinity m) (Infinity n) = NaN"
| "ddiv NaN y = NaN"
| "ddiv x NaN = NaN"

fun dmul :: "double \<Rightarrow> double \<Rightarrow> double" where
  "dmul (Finite a) (Finite b) = Finite (a * b)"
| "dmul (Finite a) (Infinity n) = (if a = 0 then NaN else Infinity (n \<noteq> (a < 0)))"
| "dmul (Infinity m) (Finite b) = (if b = 0 then NaN else Infinity (m \<noteq> (b < 0)))"
| "dmul (Infinity m) (Infinity n) = Infinity (m \<noteq> n)"
| "dmul NaN y = NaN"
| "dmul x NaN = NaN"

fun dsub :: "double \<Rightarrow> double \<Rightarrow> double" where
  "dsub (Finite a) (Finite b) = Finite (a - b)"
| "dsub (Finite a) (Infinity n) = Infinity (\<not> n)"
| "dsub (Infinity m) (Finite b) = Infinity m"
| "dsub (Infinity m) (Infinity n) = (if m = n then NaN else Infinity m)"
| "dsub NaN y = NaN"
| "dsub x NaN = NaN"

text \<open>
  The expression \<open>100 - 100 * ((idle / options.ncpu) / uptime)\<close>, which \<open>main\<close> evaluates
  once on the first reading and then, in the loop, on \<open>idletimediff\<close> and \<open>uptimediff\<close>.
\<close>

definition utilisation :: "real \<Rightarrow> int \<Rightarrow> real \<Rightarrow> double" where
  "utilisation idle n uptime =
     dsub (Finite 100)
       (dmul (Finite 100) (ddiv (ddiv (Finite idle) (Finite (real_of_int n))) (Finite uptime)))"

subsection \<open>Printing with \<open>%.1f%%\<close>\<close>

definition digit_char :: "nat \<Rightarrow> char" where
  "digit_char n = ''0123456789'' ! (n mod 10)"

fun decimal :: "nat \<Rightarrow> string" where
  "decimal n = (if n < 10 then [digit_char n] else decimal (n div 10) @ [digit_char n])"

declare decimal.simps [simp del]

text \<open>Rounding to the nearest integer, a tie going to the even one.\<close>

definition round_half_even :: "real \<Rightarrow> nat" where
  "round_half_even r =
     (let f = nat \<lfloor>r\<rfloor>; d = r - real f
      in if d < 1 / 2 then f else if 1 / 2 < d then f + 1 else if even f then f else f + 1)"

text \<open>
  \<open>%.1f\<close>: a minus sign for a negative number, the integer part, a dot, one digit. For
  a NaN the C library prints \<open>nan\<close>, before which an implementation may put a sign.
\<close>

fun printf_1f :: "double \<Rightarrow> string" where
  "printf_1f (Finite x) =
     (let m = round_half_even (\<bar>x\<bar> * 10)
      in (if x < 0 then ''-'' else []) @ decimal (m div 10) @ ''.'' @ [digit_char m])"
| "printf_1f (Infinity n) = (if n then ''-inf'' else ''inf'')"
| "printf_1f NaN = ''nan''"

subsection \<open>The environment of one pass through the loop\<close>

text \<open>
  What the system answers during one pass through the \<open>while\<close> loop of \<open>main\<close>: whether
  \<open>fopen (path, "w")\<close> gives a stream, whether the text then reaches the file (\<open>fprintf\<close>
  and \<open>fclose\<close> succeed), how \<open>usleep\<close> returns, and what \<open>/proc/uptime\<close> gives.
  The two numbers of \<open>/proc/uptime\<close> are finite.
\<close>

datatype usleep_result = Usleep_0 | Usleep_EINTR | Usleep_failure

datatype uptime_file = No_file | No_numbers | Numbers real real

record tick =
  out_open :: bool
  out_stored :: bool
  slept :: usleep_result
  proc_uptime :: uptime_file

text \<open>
  \<open>readuptime\<close>: \<open>Inl\<close> is the return of -1, with the line printed; \<open>Inr\<close> is the return
  of 0, with the values stored through \<open>uptime\<close> and \<open>idletime\<close>.
\<close>

definition readuptime :: "uptime_file \<Rightarrow> diagnostic + (real \<times> real)" where
  "readuptime f =
     (case f of
        No_file \<Rightarrow> Inl Could_not_open_uptime
      | No_numbers \<Rightarrow> Inl Error_scanning_uptime
      | Numbers uptime idletime \<Rightarrow> Inr (uptime, idletime))"

text \<open>
  \<open>writeutil\<close>: \<open>Inl\<close> is the return of -1, with the line printed; \<open>Inr\<close> is the return of
  0, with the files as they are then. Opening with \<open>"w"\<close> empties the file, and it stays
  empty here when the text does not reach it; the values that \<open>fprintf\<close> and \<open>fclose\<close>
  return are not looked at.
\<close>

definition writeutil ::
  "double \<Rightarrow> string \<Rightarrow> tick \<Rightarrow> (string \<rightharpoonup> string) \<Rightarrow> diagnostic + (string \<rightharpoonup> string)" where
  "writeutil util path t fs =
     (if \<not> out_open t then Inl (Could_not_open path)
      else Inr (fs(path \<mapsto> (if out_stored t then printf_1f util @ ''%'' else []))))"

subsection \<open>\<open>main\<close>\<close>

text \<open>
  The variables of \<open>main\<close> that live across the loop (the array \<open>times\<close> as a list of
  pairs, and \<open>u\<close>), with the files and what was printed to \<open>stderr\<close>.
\<close>

record engine =
  times_w :: "(real \<times> real) list"
  util_u :: double
  files :: "string \<rightharpoonup> string"
  stderr :: "diagnostic list"

text \<open>\<open>for (int i = 1; i < new + 1; i++) times[i] = times[i-1]\<close>, from a given \<open>i\<close> on.\<close>

function pad_out :: "nat \<Rightarrow> nat \<Rightarrow> (real \<times> real) list \<Rightarrow> (real \<times> real) list" where
  "pad_out i new ts =
     (if i < new + 1 then pad_out (i + 1) new (ts[i := ts ! (i - 1)]) else ts)"
  by pat_completeness auto
termination
  by (relation "measure (\<lambda>(i, new, ts). new + 1 - i)") auto

declare pad_out.simps [simp del]

text \<open>\<open>for (int i = 0; i < new; i++) times[i] = times[i+1]\<close>, from a given \<open>i\<close> on.\<close>

function shift_down :: "nat \<Rightarrow> nat \<Rightarrow> (real \<times> real) list \<Rightarrow> (real \<times> real) list" where
  "shift_down i new ts =
     (if i < new then shift_down (i + 1) new (ts[i := ts ! (i + 1)]) else ts)"
  by pat_completeness auto
termination
  by (relation "measure (\<lambda>(i, new, ts). new - i)") auto

declare shift_down.simps [simp del]

text \<open>The two differences taken after the new reading is stored in \<open>times[new]\<close>.\<close>

definition uptimediff :: "(real \<times> real) list \<Rightarrow> nat \<Rightarrow> real" where
  "uptimediff ts new = fst (ts ! new) - fst (ts ! 0)"

definition idletimediff :: "(real \<times> real) list \<Rightarrow> nat \<Rightarrow> real" where
  "idletimediff ts new = snd (ts ! new) - snd (ts ! 0)"

text \<open>
  The body of \<open>while (1)\<close>: \<open>Inl\<close> when it leaves \<open>main\<close> with \<open>return -1\<close>, \<open>Inr\<close> when
  it comes round again.
\<close>

definition loop_body :: "options \<Rightarrow> string \<Rightarrow> tick \<Rightarrow> engine \<Rightarrow> engine + engine" where
  "loop_body options path t e =
     (let new = nat (avg options) in
      case writeutil (util_u e) path t (files e) of
        Inl d \<Rightarrow> Inl (e\<lparr>stderr := stderr e @ [d]\<rparr>)
      | Inr fs \<Rightarrow>
          if slept t = Usleep_failure
          then Inl (e\<lparr>files := fs, stderr := stderr e @ [Error_in_usleep]\<rparr>)
          else
            (let shifted = shift_down 0 new (times_w e) in
             case readuptime (proc_uptime t) of
               Inl d \<Rightarrow> Inl (e\<lparr>times_w := shifted, files := fs, stderr := stderr e @ [d]\<rparr>)
             | Inr reading \<Rightarrow>
                 (let ts = shifted[new := reading]
                  in Inr (e\<lparr>times_w := ts,
                            util_u :=
                              utilisation (idletimediff ts new) (ncpu options)
                                (uptimediff ts new),
                            files := fs\<rparr>))))"

text \<open>
  How a run stands: \<open>main\<close> has returned a value, or it is still in its loop (which has
  no exit of its own) after the passes supplied, or its behaviour is undefined.
\<close>

datatype status = Exit int | Looping | Undefined

fun sampling_loop :: "options \<Rightarrow> string \<Rightarrow> tick list \<Rightarrow> engine \<Rightarrow> status \<times> engine" where
  "sampling_loop options path [] e = (Looping, e)"
| "sampling_loop options path (t # ts) e =
     (case loop_body options path t e of
        Inl e' \<Rightarrow> (Exit (- 1), e')
      | Inr e' \<Rightarrow> sampling_loop options path ts e')"

text \<open>
  \<open>main\<close>, given the command line, the first answer of \<open>/proc/uptime\<close>, the answers of
  the system for the passes through the loop, and the files at the start. The array
  \<open>times\<close> has \<open>new + 1\<close> rows, which C leaves undefined unless that is a positive
  \<open>int\<close>; its rows are not initialised (zeros here) and each is written before it is
  read; the room that the stack has for it is not modelled. \<open>writeutil\<close> is handed
  \<open>options.output\<close>, which is not null once \<open>parseCmdLine\<close> has returned 0 without
  \<open>given_h\<close>. The value that \<open>main\<close> returns is -1, which the system reports as the exit
  status 255.
\<close>

definition main ::
  "string list \<Rightarrow> uptime_file \<Rightarrow> tick list \<Rightarrow> (string \<rightharpoonup> string) \<Rightarrow> status \<times> engine" where
  "main argv first ticks fs =
     (let e0 = \<lparr>times_w = [], util_u = Finite 0, files = fs, stderr = []\<rparr> in
      case parseCmdLine argv of
        None \<Rightarrow> (Undefined, e0)
      | Some p \<Rightarrow>
          if returned p < 0 \<or> given_h (filled p)
          then (Exit (- 1), e0\<lparr>stderr := printed p @ [Usage]\<rparr>)
          else
            (let options = filled p; new = avg options in
             if new + 1 \<le> 0 \<or> 2147483647 < new + 1 then (Undefined, e0)
             else
               case readuptime first of
                 Inl d \<Rightarrow> (Exit (- 1), e0\<lparr>stderr := [d]\<rparr>)
               | Inr reading \<Rightarrow>
                   (let ts = (replicate (nat new + 1) (0, 0))[0 := reading];
                        u = utilisation (snd (ts ! 0)) (ncpu options) (fst (ts ! 0));
                        ts' = pad_out 1 (nat new) ts
                    in case output_path options of
                         None \<Rightarrow> (Undefined, e0)
                       | Some path \<Rightarrow>
                           sampling_loop options path ticks
                             (e0\<lparr>times_w := ts', util_u := u\<rparr>))))"

section \<open>Notions used in the statements\<close>

text \<open>
  What every return of \<open>getopt_long\<close> looks like with the program's table: one of the
  seven values of the \<open>switch\<close>, and an \<open>optarg\<close> that is set for the four options that
  take an argument.
\<close>

definition proper_ret :: "getopt_ret \<Rightarrow> bool" where
  "proper_ret r =
     (opt r = CHR ''h'' \<or> opt r = CHR ''?'' \<or> opt r = CHR '':'' \<or>
      ((opt r = CHR ''o'' \<or> opt r = CHR ''i'' \<or> opt r = CHR ''c'' \<or> opt r = CHR ''n'') \<and>
       (case optarg r of None \<Rightarrow> False | Some a \<Rightarrow> True)))"

text \<open>How often \<open>getopt_long\<close> returns a given value on a command line.\<close>

definition times_returned :: "char \<Rightarrow> string list \<Rightarrow> nat" where
  "times_returned c argv = length (filter (\<lambda>r. opt r = c) (getopt_returns argv))"

text \<open>The arguments (\<open>optarg\<close>) that come with the returns of a given value, in order.\<close>

definition optargs_of :: "char \<Rightarrow> getopt_ret list \<Rightarrow> string list" where
  "optargs_of c rs = List.map_filter optarg (filter (\<lambda>r. opt r = c) rs)"

text \<open>Whether \<open>getopt_long\<close> returns \<open>'h'\<close> at some call: the help option is scanned.\<close>

definition help_scanned :: "string list \<Rightarrow> bool" where
  "help_scanned argv = (times_returned CHR ''h'' argv \<noteq> 0)"

text \<open>The ten digit characters.\<close>

definition digit :: "char \<Rightarrow> bool" where
  "digit c = (c \<in> set ''0123456789'')"

text \<open>
  The patterns in the specification's words, for comparison with the conversion loops:
  \<open>digits\<close> is one or more digits, and a decimal number is \<open>digits ('.' digits)?\<close>.
\<close>

definition spec_digits :: "string \<Rightarrow> bool" where
  "spec_digits a = (a \<noteq> [] \<and> list_all digit a)"

definition spec_decimal :: "string \<Rightarrow> bool" where
  "spec_decimal a =
     (spec_digits (takeWhile digit a) \<and>
      (case dropWhile digit a of [] \<Rightarrow> True | c # f \<Rightarrow> c = CHR ''.'' \<and> spec_digits f))"

text \<open>
  The pattern that case \<open>'i'\<close> lets pass: digits, none included, then nothing more or a
  dot and digits, none included.
\<close>

definition plain_decimal :: "string \<Rightarrow> bool" where
  "plain_decimal a =
     (case dropWhile digit a of [] \<Rightarrow> True | c # f \<Rightarrow> c = CHR ''.'' \<and> list_all digit f)"

text \<open>
  A pass through the loop in which nothing fails that the program looks at: the output
  file opens, \<open>usleep\<close> returns 0 or is interrupted, and \<open>/proc/uptime\<close> gives its two
  numbers, which are the reading of that pass.
\<close>

definition good_tick :: "tick \<Rightarrow> bool" where
  "good_tick t =
     (out_open t \<and> slept t \<noteq> Usleep_failure \<and>
      (case proc_uptime t of Numbers uptime idletime \<Rightarrow> True | _ \<Rightarrow> False))"

definition reading :: "tick \<Rightarrow> real \<times> real" where
  "reading t = (case proc_uptime t of Numbers uptime idletime \<Rightarrow> (uptime, idletime) | _ \<Rightarrow> (0, 0))"

section \<open>Properties of \<open>getopt_long\<close> with the program's table\<close>

lemma short_lookup_optstring:
  "short_lookup optstring c = Some x \<Longrightarrow>
     (c = CHR ''h'' \<and> x = no_argument) \<or>
     ((c = CHR ''o'' \<or> c = CHR ''i'' \<or> c = CHR ''c'' \<or> c = CHR ''n'') \<and> x = required_argument)"
  by (simp add: optstring_def split: if_splits)

lemma long_lookup_in_table: "long_lookup tab nm = Some p \<Longrightarrow> p \<in> set tab"
proof -
  have hd_in: "\<And>P q qs. filter P tab = q # qs \<Longrightarrow> q \<in> set tab"
    by (metis filter_is_subset list.set_intros(1) subsetD)
  assume "long_lookup tab nm = Some p"
  then show ?thesis
    by (auto simp: long_lookup_def split: list.splits if_splits dest: hd_in)
qed

lemma long_lookup_getopts:
  "long_lookup getopts nm = Some p \<Longrightarrow>
     (val p = CHR ''h'' \<and> has_arg p = no_argument) \<or>
     ((val p = CHR ''o'' \<or> val p = CHR ''i'' \<or> val p = CHR ''c'' \<or> val p = CHR ''n'') \<and>
      has_arg p = required_argument)"
  by (drule long_lookup_in_table) (auto simp: getopts_def)

lemma process_long_option_proper: "proper_ret (fst (process_long_option ind s rest))"
proof (cases "long_lookup getopts (takeWhile (\<lambda>c. c \<noteq> CHR ''='') s)")
  case None
  then show ?thesis by (simp add: process_long_option_def Let_def proper_ret_def)
next
  case (Some p)
  from long_lookup_getopts [OF Some] show ?thesis
    using Some
    by (cases rest) (auto simp: process_long_option_def Let_def proper_ret_def)
qed

lemma short_option_proper: "proper_ret (fst (short_option ind c cs rest))"
proof (cases "short_lookup optstring c")
  case None
  then show ?thesis by (simp add: short_option_def Let_def proper_ret_def)
next
  case (Some x)
  from short_lookup_optstring [OF Some] show ?thesis
    using Some
    by (cases rest) (auto simp: short_option_def Let_def proper_ret_def)
qed

lemma getopt_long_proper: "r \<in> set (getopt_long ind nc rest) \<Longrightarrow> proper_ret r"
proof (induction ind nc rest rule: getopt_long.induct)
  case (1 ind)
  then show ?case by simp
next
  case (2 ind a rest)
  then show ?case
    by (auto simp: Let_def process_long_option_proper split: if_splits)
next
  case (3 ind c cs rest)
  then show ?case
    by (auto simp: Let_def short_option_proper)
qed

lemma getopt_returns_proper: "list_all proper_ret (getopt_returns argv)"
  by (simp add: getopt_returns_def list_all_iff getopt_long_proper)

text \<open>
  \<open>optind\<close> never leaves \<open>argv\<close>: the reads of \<open>argv[optind - 1]\<close> in the cases \<open>'?'\<close> and
  \<open>':'\<close> are in range.
\<close>

lemma process_long_option_optind:
  "ind < optind (fst (process_long_option ind s rest)) \<and>
   optind (fst (process_long_option ind s rest)) + length (snd (process_long_option ind s rest)) =
     ind + 1 + length rest"
  by (simp add: process_long_option_def Let_def split: option.split list.split)

lemma short_option_optind:
  "ind \<le> optind (fst (short_option ind c cs rest)) \<and>
   optind (fst (short_option ind c cs rest)) + length (snd (snd (short_option ind c cs rest))) +
     (if fst (snd (short_option ind c cs rest)) = [] then 0 else 1) =
     ind + 1 + length rest"
  by (simp add: short_option_def Let_def split: option.split has_arg.split list.split)

lemma getopt_long_optind:
  "r \<in> set (getopt_long ind nc rest) \<Longrightarrow>
   ind \<le> optind r \<and> optind r \<le> ind + length rest + (if nc = [] then 0 else 1)"
proof (induction ind nc rest arbitrary: r rule: getopt_long.induct)
  case (1 ind)
  then show ?case by simp
next
  case (2 ind a rest)
  show ?case
  proof (cases "nonoption a")
    case True
    with 2 show ?thesis by fastforce
  next
    case no: False
    then have a2: "tl a \<noteq> []" by (cases a) auto
    show ?thesis
    proof (cases "a = ''--''")
      case True
      with 2 no show ?thesis by simp
    next
      case nd: False
      show ?thesis
      proof (cases "take 2 a = ''--''")
        case False
        with 2(1,3) [of r] 2(4) no nd a2 show ?thesis by fastforce
      next
        case True
        let ?step = "process_long_option ind (drop 2 a) rest"
        from 2(4) no nd True have "r = fst ?step \<or>
            r \<in> set (getopt_long (optind (fst ?step)) [] (snd ?step))"
          by (simp add: Let_def)
        then show ?thesis
        proof
          assume "r = fst ?step"
          with process_long_option_optind [of ind "drop 2 a" rest] show ?thesis by simp
        next
          assume "r \<in> set (getopt_long (optind (fst ?step)) [] (snd ?step))"
          from 2(2) [OF no nd True refl this]
            process_long_option_optind [of ind "drop 2 a" rest]
          show ?thesis by simp
        qed
      qed
    qed
  qed
next
  case (3 ind c cs rest)
  let ?step = "short_option ind c cs rest"
  from 3(2) have "r = fst ?step \<or>
      r \<in> set (getopt_long (optind (fst ?step)) (fst (snd ?step)) (snd (snd ?step)))"
    by (simp add: Let_def)
  then show ?case
  proof
    assume "r = fst ?step"
    with short_option_optind [of ind c cs rest] show ?thesis by simp
  next
    assume "r \<in> set (getopt_long (optind (fst ?step)) (fst (snd ?step)) (snd (snd ?step)))"
    from 3(1) [OF refl this] short_option_optind [of ind c cs rest]
    show ?thesis by simp
  qed
qed

lemma getopt_returns_optind:
  "r \<in> set (getopt_returns argv) \<Longrightarrow> 1 \<le> optind r \<and> optind r - 1 < length argv"
  by (cases argv) (auto simp: getopt_returns_def dest!: getopt_long_optind)

section \<open>The state at the end of the scanning loop\<close>

lemma optargs_of_Cons:
  "optargs_of c (r # rs) =
     (if opt r = c then (case optarg r of None \<Rightarrow> [] | Some a \<Rightarrow> [a]) else []) @ optargs_of c rs"
  by (simp add: optargs_of_def List.map_filter_simps split: option.split)

lemma optargs_of_Nil [simp]: "optargs_of c [] = []"
  by (simp add: optargs_of_def List.map_filter_simps)

lemma case_o_simps [simp]:
  "given_o (case_o r s) = given_o s + 1" "given_i (case_o r s) = given_i s"
  "given_c (case_o r s) = given_c s" "given_n (case_o r s) = given_n s"
  "nunrecognized (case_o r s) = nunrecognized s" "missing (case_o r s) = missing s"
  "given_badinterval (case_o r s) = given_badinterval s"
  "given_badncpu (case_o r s) = given_badncpu s" "given_badavg (case_o r s) = given_badavg s"
  by (simp_all add: case_o_def)

lemma case_i_simps [simp]:
  "given_o (case_i a s) = given_o s" "given_i (case_i a s) = given_i s + 1"
  "given_c (case_i a s) = given_c s" "given_n (case_i a s) = given_n s"
  "nunrecognized (case_i a s) = nunrecognized s" "missing (case_i a s) = missing s"
  "given_badinterval (case_i a s) = given_badinterval s @ snd (conv_interval a)"
  "given_badncpu (case_i a s) = given_badncpu s" "given_badavg (case_i a s) = given_badavg s"
  by (simp_all add: case_i_def split: prod.split)

lemma case_c_simps [simp]:
  "given_o (case_c a s) = given_o s" "given_i (case_c a s) = given_i s"
  "given_c (case_c a s) = given_c s + 1" "given_n (case_c a s) = given_n s"
  "nunrecognized (case_c a s) = nunrecognized s" "missing (case_c a s) = missing s"
  "given_badinterval (case_c a s) = given_badinterval s"
  "given_badncpu (case_c a s) = given_badncpu s @ (if snd (conv_int 0 a) then [a] else [])"
  "given_badavg (case_c a s) = given_badavg s"
  by (simp_all add: case_c_def split: prod.split)

lemma case_n_simps [simp]:
  "given_o (case_n a s) = given_o s" "given_i (case_n a s) = given_i s"
  "given_c (case_n a s) = given_c s" "given_n (case_n a s) = given_n s + 1"
  "nunrecognized (case_n a s) = nunrecognized s" "missing (case_n a s) = missing s"
  "given_badinterval (case_n a s) = given_badinterval s"
  "given_badncpu (case_n a s) = given_badncpu s"
  "given_badavg (case_n a s) = given_badavg s @ (if snd (conv_int 0 a) then [a] else [])"
  by (simp_all add: case_n_def split: prod.split)

lemma case_unrecognised_simps [simp]:
  "given_o (case_unrecognised argv r s) = given_o s"
  "given_i (case_unrecognised argv r s) = given_i s"
  "given_c (case_unrecognised argv r s) = given_c s"
  "given_n (case_unrecognised argv r s) = given_n s"
  "nunrecognized (case_unrecognised argv r s) = nunrecognized s + 1"
  "missing (case_unrecognised argv r s) = missing s"
  "given_badinterval (case_unrecognised argv r s) = given_badinterval s"
  "given_badncpu (case_unrecognised argv r s) = given_badncpu s"
  "given_badavg (case_unrecognised argv r s) = given_badavg s"
  by (simp_all add: case_unrecognised_def)

lemma case_missing_simps [simp]:
  "given_o (case_missing argv r s) = given_o s"
  "given_i (case_missing argv r s) = given_i s"
  "given_c (case_missing argv r s) = given_c s"
  "given_n (case_missing argv r s) = given_n s"
  "nunrecognized (case_missing argv r s) = nunrecognized s"
  "missing (case_missing argv r s) = missing s @ [argv ! (optind r - 1)]"
  "given_badinterval (case_missing argv r s) = given_badinterval s"
  "given_badncpu (case_missing argv r s) = given_badncpu s"
  "given_badavg (case_missing argv r s) = given_badavg s"
  by (simp_all add: case_missing_def)

lemma parse_loop_help:
  "list_all proper_ret rs \<Longrightarrow> CHR ''h'' \<in> opt ` set rs \<Longrightarrow>
   \<exists>s'. parse_loop argv rs s = Return 0 s' \<and> given_h (opts s')"
proof (induction rs arbitrary: s)
  case Nil
  then show ?case by simp
next
  case (Cons r rs)
  then show ?case
    by (cases "opt r = CHR ''h''") (auto simp: proper_ret_def split: option.splits)
qed

lemma parse_loop_scanned:
  "list_all proper_ret rs \<Longrightarrow> CHR ''h'' \<notin> opt ` set rs \<Longrightarrow>
   \<exists>s'. parse_loop argv rs s = Scanned s'"
proof (induction rs arbitrary: s)
  case Nil
  then show ?case by simp
next
  case (Cons r rs)
  then show ?case
    by (auto simp: proper_ret_def split: option.splits)
qed

lemma scanned_counts:
  "parse_loop argv rs s = Scanned s' \<Longrightarrow>
     given_o s' = given_o s + length (filter (\<lambda>r. opt r = CHR ''o'') rs) \<and>
     given_i s' = given_i s + length (filter (\<lambda>r. opt r = CHR ''i'') rs) \<and>
     given_c s' = given_c s + length (filter (\<lambda>r. opt r = CHR ''c'') rs) \<and>
     given_n s' = given_n s + length (filter (\<lambda>r. opt r = CHR ''n'') rs) \<and>
     nunrecognized s' = nunrecognized s + length (filter (\<lambda>r. opt r = CHR ''?'') rs) \<and>
     length (missing s') = length (missing s) + length (filter (\<lambda>r. opt r = CHR '':'') rs)"
proof (induction rs arbitrary: s)
  case Nil
  then show ?case by simp
next
  case (Cons r rs)
  from Cons.prems show ?case
    by (simp split: if_splits option.splits) (auto dest!: Cons.IH)
qed

lemma scanned_bad:
  "parse_loop argv rs s = Scanned s' \<Longrightarrow>
     given_badinterval s' =
       given_badinterval s @ concat (map (\<lambda>a. snd (conv_interval a)) (optargs_of CHR ''i'' rs)) \<and>
     given_badncpu s' =
       given_badncpu s @ filter (\<lambda>a. snd (conv_int 0 a)) (optargs_of CHR ''c'' rs) \<and>
     given_badavg s' =
       given_badavg s @ filter (\<lambda>a. snd (conv_int 0 a)) (optargs_of CHR ''n'' rs)"
proof (induction rs arbitrary: s)
  case Nil
  then show ?case by simp
next
  case (Cons r rs)
  from Cons.prems show ?case
    by (simp split: if_splits option.splits) (auto simp: optargs_of_Cons dest!: Cons.IH)
qed

text \<open>The state in which the loop ends on a command line where no help option is scanned.\<close>

lemma help_scanned_iff: "help_scanned argv \<longleftrightarrow> CHR ''h'' \<in> opt ` set (getopt_returns argv)"
  by (force simp: help_scanned_def times_returned_def filter_empty_conv)

lemma scanned_state:
  assumes "\<not> help_scanned argv"
  obtains s where
    "parse_loop argv (getopt_returns argv) (init_state argv) = Scanned s"
    "given_o s = times_returned CHR ''o'' argv"
    "given_i s = times_returned CHR ''i'' argv"
    "given_c s = times_returned CHR ''c'' argv"
    "given_n s = times_returned CHR ''n'' argv"
    "nunrecognized s = times_returned CHR ''?'' argv"
    "length (missing s) = times_returned CHR '':'' argv"
    "given_badinterval s =
       concat (map (\<lambda>a. snd (conv_interval a)) (optargs_of CHR ''i'' (getopt_returns argv)))"
    "given_badncpu s = filter (\<lambda>a. snd (conv_int 0 a)) (optargs_of CHR ''c'' (getopt_returns argv))"
    "given_badavg s = filter (\<lambda>a. snd (conv_int 0 a)) (optargs_of CHR ''n'' (getopt_returns argv))"
proof -
  from assms have "CHR ''h'' \<notin> opt ` set (getopt_returns argv)"
    by (simp add: help_scanned_iff)
  with getopt_returns_proper [of argv] obtain s where
    s: "parse_loop argv (getopt_returns argv) (init_state argv) = Scanned s"
    using parse_loop_scanned by blast
  from scanned_counts [OF s] scanned_bad [OF s] that [OF s] show thesis
    by (simp add: init_state_def times_returned_def)
qed





section \<open>The validator: what is reported, and when it rejects\<close>

lemma parseCmdLine_scanned:
  assumes "parse_loop argv (getopt_returns argv) (init_state argv) = Scanned s"
  shows "parseCmdLine argv =
     Some \<lparr>returned = (if report s = [] then 0 else - 1), filled = opts s,
           printed = (if heading s then [Errors_processing] else []) @ report s\<rparr>"
  using assms by (simp add: parseCmdLine_def errors_def)








section \<open>The conversion loops and the values they let pass\<close>

lemma nondigit_iff: "nondigit c \<longleftrightarrow> \<not> digit c"
proof
  assume "nondigit c"
  then show "\<not> digit c"
    by (auto simp: nondigit_def digit_def)
next
  assume nd: "\<not> digit c"
  have code: "\<And>d. (of_char c :: nat) = of_char d \<Longrightarrow> c = d"
    by simp
  show "nondigit c"
  proof (rule ccontr)
    assume "\<not> nondigit c"
    then have "(of_char c :: nat) \<in> {48, 49, 50, 51, 52, 53, 54, 55, 56, 57}"
      unfolding nondigit_def by (simp; arith)
    then have "c \<in> set ''0123456789''"
      using code [of "CHR ''0''"] code [of "CHR ''1''"] code [of "CHR ''2''"]
        code [of "CHR ''3''"] code [of "CHR ''4''"] code [of "CHR ''5''"]
        code [of "CHR ''6''"] code [of "CHR ''7''"] code [of "CHR ''8''"]
        code [of "CHR ''9''"]
      by auto
    with nd show False
      by (simp add: digit_def)
  qed
qed

lemma conv_int_bad: "snd (conv_int v a) \<longleftrightarrow> \<not> list_all digit a"
  by (induction a arbitrary: v) (simp_all add: nondigit_iff)

lemma interval_whole_rest: "snd (interval_whole d a) = dropWhile digit a"
  by (induction a arbitrary: d) (simp_all add: nondigit_iff)

lemma interval_fraction_broke: "snd (snd (interval_fraction d v a)) \<longleftrightarrow> \<not> list_all digit a"
  by (induction a arbitrary: d v) (simp_all add: nondigit_iff)

lemma conv_interval_bad: "snd (conv_interval a) = (if plain_decimal a then [] else [a])"
proof -
  obtain d where d: "interval_whole 0 a = (d, dropWhile digit a)"
    using interval_whole_rest [of 0 a] by (cases "interval_whole 0 a") simp
  show ?thesis
  proof (cases "dropWhile digit a")
    case Nil
    with d show ?thesis
      by (simp add: conv_interval_def plain_decimal_def del: dropWhile_eq_Nil_conv)
  next
    case (Cons x f)
    obtain d' v broke where fr: "interval_fraction d 0 f = (d', v, broke)"
      by (cases "interval_fraction d 0 f")
    with interval_fraction_broke [of d 0 f] have "broke \<longleftrightarrow> \<not> list_all digit f"
      by simp
    with d Cons fr show ?thesis
      by (simp add: conv_interval_def plain_decimal_def)
  qed
qed

lemma not_digit_dot: "\<not> digit CHR ''.''"
  by (simp add: digit_def)

lemma plain_decimal_iff:
  "plain_decimal a \<longleftrightarrow>
     (\<exists>w f. list_all digit w \<and> list_all digit f \<and> (a = w \<or> a = w @ ''.'' @ f))"
proof
  assume p: "plain_decimal a"
  have a: "takeWhile digit a @ dropWhile digit a = a" by simp
  have w: "list_all digit (takeWhile digit a)"
    by (simp add: list_all_iff) (meson set_takeWhileD)
  show "\<exists>w f. list_all digit w \<and> list_all digit f \<and> (a = w \<or> a = w @ ''.'' @ f)"
  proof (cases "dropWhile digit a")
    case Nil
    then have "a = takeWhile digit a" by (metis append_Nil2 takeWhile_dropWhile_id)
    with w show ?thesis by (intro exI [of _ "takeWhile digit a"] exI [of _ "[]"]) simp
  next
    case (Cons c f)
    with p have c: "c = CHR ''.''" and f: "list_all digit f"
      by (simp_all add: plain_decimal_def)
    from Cons c have "a = takeWhile digit a @ ''.'' @ f"
      by (metis append_Cons append_Nil takeWhile_dropWhile_id)
    with w f show ?thesis by blast
  qed
next
  assume "\<exists>w f. list_all digit w \<and> list_all digit f \<and> (a = w \<or> a = w @ ''.'' @ f)"
  then obtain w f where w: "list_all digit w" and f: "list_all digit f"
    and a: "a = w \<or> a = w @ ''.'' @ f" by blast
  from a show "plain_decimal a"
  proof
    assume "a = w"
    with w have "dropWhile digit a = []" by (simp add: list_all_iff)
    then show ?thesis by (simp add: plain_decimal_def del: dropWhile_eq_Nil_conv)
  next
    assume "a = w @ ''.'' @ f"
    with w have "dropWhile digit a = CHR ''.'' # f"
      by (simp add: list_all_iff dropWhile_append3 not_digit_dot)
    with f show ?thesis by (simp add: plain_decimal_def)
  qed
qed

lemma spec_decimal_iff:
  "spec_decimal a \<longleftrightarrow>
     (\<exists>w f. spec_digits w \<and> (a = w \<or> (spec_digits f \<and> a = w @ ''.'' @ f)))"
proof
  assume p: "spec_decimal a"
  then have w: "spec_digits (takeWhile digit a)" by (simp add: spec_decimal_def)
  show "\<exists>w f. spec_digits w \<and> (a = w \<or> (spec_digits f \<and> a = w @ ''.'' @ f))"
  proof (cases "dropWhile digit a")
    case Nil
    then have "a = takeWhile digit a" by (metis append_Nil2 takeWhile_dropWhile_id)
    with w show ?thesis by blast
  next
    case (Cons c f)
    with p have c: "c = CHR ''.''" and f: "spec_digits f"
      by (simp_all add: spec_decimal_def)
    from Cons c have "a = takeWhile digit a @ ''.'' @ f"
      by (metis append_Cons append_Nil takeWhile_dropWhile_id)
    with w f show ?thesis by blast
  qed
next
  assume "\<exists>w f. spec_digits w \<and> (a = w \<or> (spec_digits f \<and> a = w @ ''.'' @ f))"
  then obtain w f where w: "spec_digits w"
    and a: "a = w \<or> (spec_digits f \<and> a = w @ ''.'' @ f)" by blast
  from w have wd: "\<forall>c \<in> set w. digit c" by (simp add: spec_digits_def list_all_iff)
  from a show "spec_decimal a"
  proof
    assume "a = w"
    with wd have "dropWhile digit a = []" "takeWhile digit a = w" by simp_all
    with w show ?thesis by (simp add: spec_decimal_def del: dropWhile_eq_Nil_conv)
  next
    assume f: "spec_digits f \<and> a = w @ ''.'' @ f"
    with wd have "dropWhile digit a = CHR ''.'' # f" "takeWhile digit a = w"
      by (simp_all add: dropWhile_append3 takeWhile_append2 not_digit_dot)
    with w f show ?thesis by (simp add: spec_decimal_def)
  qed
qed

lemma short_o: "short_option ind CHR ''o'' [] (v # rest) = (\<lparr>opt = CHR ''o'', optarg = Some v, optind = ind + 2\<rparr>, [], rest)"
  and short_c: "short_option ind CHR ''c'' [] (v # rest) = (\<lparr>opt = CHR ''c'', optarg = Some v, optind = ind + 2\<rparr>, [], rest)"
  and short_i: "short_option ind CHR ''i'' [] (v # rest) = (\<lparr>opt = CHR ''i'', optarg = Some v, optind = ind + 2\<rparr>, [], rest)"
  and short_n: "short_option ind CHR ''n'' [] (v # rest) = (\<lparr>opt = CHR ''n'', optarg = Some v, optind = ind + 2\<rparr>, [], rest)"
  by (simp_all add: short_option_def optstring_def)

lemma step_short:
  "getopt_long ind [] ([CHR ''-'', c] # rest) =
     (if c = CHR ''-'' then [] else getopt_long ind [c] rest)"
  by simp

lemma returns_oci:
  "getopt_returns [prog, ''-o'', path, ''-c'', v, ''-i'', a] =
     [\<lparr>opt = CHR ''o'', optarg = Some path, optind = 3\<rparr>,
      \<lparr>opt = CHR ''c'', optarg = Some v, optind = 5\<rparr>,
      \<lparr>opt = CHR ''i'', optarg = Some a, optind = 7\<rparr>]"
  unfolding getopt_returns_def
  by (simp add: step_short short_o short_c short_i del: getopt_long.simps(2))

lemma returns_ocn:
  "getopt_returns [prog, ''-o'', path, ''-c'', v, ''-n'', a] =
     [\<lparr>opt = CHR ''o'', optarg = Some path, optind = 3\<rparr>,
      \<lparr>opt = CHR ''c'', optarg = Some v, optind = 5\<rparr>,
      \<lparr>opt = CHR ''n'', optarg = Some a, optind = 7\<rparr>]"
  unfolding getopt_returns_def
  by (simp add: step_short short_o short_c short_n del: getopt_long.simps(2))

lemma returns_oc:
  "getopt_returns [prog, ''-o'', path, ''-c'', a] =
     [\<lparr>opt = CHR ''o'', optarg = Some path, optind = 3\<rparr>,
      \<lparr>opt = CHR ''c'', optarg = Some a, optind = 5\<rparr>]"
  unfolding getopt_returns_def
  by (simp add: step_short short_o short_c del: getopt_long.simps(2))

lemma conv_int_1: "\<not> nondigit CHR ''1''" "int32 (digit_val CHR ''1'') = 1"
  by (simp_all add: nondigit_def digit_val_def int32_def)

lemma flagged_interval:
  "parseCmdLine [prog, ''-o'', path, ''-c'', ''1'', ''-i'', a] =
     Some \<lparr>returned = (if plain_decimal a then 0 else - 1),
           filled = \<lparr>output_path = Some path, interval = fst (conv_interval a), ncpu = 1,
                     avg = 1, given_h = False\<rparr>,
           printed = (if plain_decimal a then []
                      else [Errors_processing, Interval_improper 1 [a]])\<rparr>"
  by (simp add: parseCmdLine_def returns_oci init_state_def case_o_def case_i_def case_c_def
      conv_int_1 errors_def report_def heading_def conv_interval_bad case_prod_beta)

lemma flagged_cpus:
  "parseCmdLine [prog, ''-o'', path, ''-c'', a] =
     Some \<lparr>returned = (if list_all digit a then 0 else - 1),
           filled = \<lparr>output_path = Some path, interval = 1, ncpu = fst (conv_int 0 a),
                     avg = 1, given_h = False\<rparr>,
           printed = (if list_all digit a then []
                      else [Errors_processing, Cpus_improper 1 [a]])\<rparr>"
  by (simp add: parseCmdLine_def returns_oc init_state_def case_o_def case_c_def
      errors_def report_def heading_def conv_int_bad case_prod_beta)

lemma flagged_samples:
  "parseCmdLine [prog, ''-o'', path, ''-c'', ''1'', ''-n'', a] =
     Some \<lparr>returned = (if list_all digit a then 0 else - 1),
           filled = \<lparr>output_path = Some path, interval = 1, ncpu = 1,
                     avg = fst (conv_int 0 a), given_h = False\<rparr>,
           printed = (if list_all digit a then [] else [Samples_improper 1 [a]])\<rparr>"
  by (simp add: parseCmdLine_def returns_ocn init_state_def case_o_def case_n_def case_c_def
      conv_int_1 errors_def report_def heading_def conv_int_bad case_prod_beta)

text \<open>
  Claim C2, as amended. A value given to \<open>-i\<close> is recorded as improper exactly when it is
  not a run of digits (which may be empty), alone or followed by a dot and a run of digits
  (which may be empty); a value given to \<open>-c\<close> or \<open>-n\<close> is recorded as improper exactly
  when one of its characters is not a digit. So the empty string, \<open>.\<close>, \<open>5.\<close> and \<open>.5\<close>
  pass for \<open>-i\<close>, and the empty string passes for \<open>-c\<close> and \<open>-n\<close>. On a command line that
  is otherwise in order, \<open>parseCmdLine\<close> prints the line for the improper value and returns
  -1 in the one case, and prints nothing and returns 0 in the other.
\<close>

theorem improper_values:
  "(plain_decimal a \<longleftrightarrow>
      (\<exists>w f. list_all digit w \<and> list_all digit f \<and> (a = w \<or> a = w @ ''.'' @ f))) \<and>
   given_badinterval (case_i a s) = given_badinterval s @ (if plain_decimal a then [] else [a]) \<and>
   given_badncpu (case_c a s) = given_badncpu s @ (if list_all digit a then [] else [a]) \<and>
   given_badavg (case_n a s) = given_badavg s @ (if list_all digit a then [] else [a]) \<and>
   parseCmdLine [prog, ''-o'', path, ''-c'', ''1'', ''-i'', a] =
     Some \<lparr>returned = (if plain_decimal a then 0 else - 1),
           filled = \<lparr>output_path = Some path, interval = fst (conv_interval a), ncpu = 1,
                     avg = 1, given_h = False\<rparr>,
           printed = (if plain_decimal a then []
                      else [Errors_processing, Interval_improper 1 [a]])\<rparr> \<and>
   parseCmdLine [prog, ''-o'', path, ''-c'', a] =
     Some \<lparr>returned = (if list_all digit a then 0 else - 1),
           filled = \<lparr>output_path = Some path, interval = 1, ncpu = fst (conv_int 0 a),
                     avg = 1, given_h = False\<rparr>,
           printed = (if list_all digit a then []
                      else [Errors_processing, Cpus_improper 1 [a]])\<rparr> \<and>
   parseCmdLine [prog, ''-o'', path, ''-c'', ''1'', ''-n'', a] =
     Some \<lparr>returned = (if list_all digit a then 0 else - 1),
           filled = \<lparr>output_path = Some path, interval = 1, ncpu = 1,
                     avg = fst (conv_int 0 a), given_h = False\<rparr>,
           printed = (if list_all digit a then [] else [Samples_improper 1 [a]])\<rparr>"
  using plain_decimal_iff [of a] flagged_interval [of prog path a] flagged_cpus [of prog path a]
    flagged_samples [of prog path a]
  by (simp add: conv_interval_bad conv_int_bad)

theorem improper_values_witness:
  "given_badinterval (case_i ''1.5x'' (init_state [])) = [''1.5x''] \<and>
   given_badinterval (case_i ''12.50'' (init_state [])) = [] \<and>
   given_badinterval (case_i ''.'' (init_state [])) = [] \<and>
   given_badncpu (case_c ''4x'' (init_state [])) = [''4x''] \<and>
   given_badavg (case_n ''16'' (init_state [])) = [] \<and>
   parseCmdLine [''cpuwatch'', ''-o'', ''out'', ''-c'', ''1'', ''-i'', ''1.5x''] =
     Some \<lparr>returned = - 1,
           filled = \<lparr>output_path = Some ''out'', interval = 3 / 2, ncpu = 1, avg = 1,
                     given_h = False\<rparr>,
           printed = [Errors_processing, Interval_improper 1 [''1.5x'']]\<rparr>"
proof -
  have d: "list_all digit ''16''" "\<not> list_all digit ''4x''"
    by (simp_all add: digit_def)
  have p: "\<not> plain_decimal ''1.5x''" "plain_decimal ''12.50''" "plain_decimal ''.''"
    by code_simp+
  have v: "fst (conv_interval ''1.5x'') = 3 / 2" by code_simp
  show ?thesis
    using improper_values [of "''1.5x''" "init_state []" "''cpuwatch''" "''out''"]
      improper_values [of "''12.50''" "init_state []" "''cpuwatch''" "''out''"]
      improper_values [of "''.''" "init_state []" "''cpuwatch''" "''out''"]
      improper_values [of "''4x''" "init_state []" "''cpuwatch''" "''out''"]
      improper_values [of "''16''" "init_state []" "''cpuwatch''" "''out''"]
    unfolding if_P [OF p(2)] if_P [OF p(3)] if_not_P [OF p(1)] if_P [OF d(1)] if_not_P [OF d(2)] v
    by (simp add: init_state_def)
qed

text \<open>
  The claim as the specification states it fails: \<open>5.\<close> and \<open>.5\<close> do not match
  \<open>digits ('.' digits)?\<close> and the empty string is not \<open>digits\<close>, yet none of them is
  recorded as improper, and a command line with such values is accepted.
\<close>

theorem improper_values_counterexample:
  "snd (conv_interval ''5.'') = [] \<and> \<not> spec_decimal ''5.'' \<and>
   snd (conv_interval ''.5'') = [] \<and> \<not> spec_decimal ''.5'' \<and>
   \<not> snd (conv_int 0 []) \<and> \<not> spec_digits [] \<and>
   parseCmdLine [''cpuwatch'', ''-o'', ''out'', ''-c'', [], ''-i'', ''5.''] =
     Some \<lparr>returned = 0,
           filled = \<lparr>output_path = Some ''out'', interval = 5, ncpu = 0, avg = 1,
                     given_h = False\<rparr>,
           printed = []\<rparr>"
  by code_simp

section \<open>The validator: values, the long options, help\<close>




text \<open>
  Claim C3. The table of long options names the option \<open>ncpu\<close>, where the usage text, the
  comment of case \<open>'c'\<close> and the error lines call it \<open>--cpus\<close>. So \<open>--cpus=4\<close> is returned
  by \<open>getopt_long\<close> as \<open>'?'\<close>: \<open>parseCmdLine\<close> reports it as not recognised, reports
  \<open>-c\<close> as not given, leaves \<open>ncpu\<close> at 0 and returns -1; \<open>--cpus=abc\<close> is reported the
  same way, not as an improper value. The name of the table, \<open>--ncpu=4\<close>, is accepted.
\<close>

theorem long_cpus_is_not_in_the_table:
  "parseCmdLine [''cpuwatch'', ''--output=out'', ''--cpus=4''] =
     Some \<lparr>returned = - 1,
           filled = \<lparr>output_path = Some ''out'', interval = 1, ncpu = 0, avg = 1,
                     given_h = False\<rparr>,
           printed = [Errors_processing, Not_recognised 1 [''--cpus=4''], Cpus_not_given]\<rparr> \<and>
   parseCmdLine [''cpuwatch'', ''--output=out'', ''--cpus=abc''] =
     Some \<lparr>returned = - 1,
           filled = \<lparr>output_path = Some ''out'', interval = 1, ncpu = 0, avg = 1,
                     given_h = False\<rparr>,
           printed = [Errors_processing, Not_recognised 1 [''--cpus=abc''], Cpus_not_given]\<rparr> \<and>
   parseCmdLine [''cpuwatch'', ''--output=out'', ''--ncpu=4''] =
     Some \<lparr>returned = 0,
           filled = \<lparr>output_path = Some ''out'', interval = 1, ncpu = 4, avg = 1,
                     given_h = False\<rparr>,
           printed = []\<rparr>"
  by code_simp

lemma parseCmdLine_help:
  assumes "help_scanned argv"
  shows "\<exists>f. parseCmdLine argv = Some \<lparr>returned = 0, filled = f, printed = []\<rparr> \<and> given_h f"
proof -
  from assms have "CHR ''h'' \<in> opt ` set (getopt_returns argv)"
    by (simp add: help_scanned_iff)
  with getopt_returns_proper [of argv] obtain s where
    "parse_loop argv (getopt_returns argv) (init_state argv) = Return 0 s" "given_h (opts s)"
    using parse_loop_help by blast
  then show ?thesis by (simp add: parseCmdLine_def)
qed

text \<open>
  \<open>parseCmdLine\<close> returns on every command line: it never reads through a null
  \<open>optarg\<close>, and it returns 0 or -1.
\<close>

lemma parseCmdLine_total:
  "\<exists>p. parseCmdLine argv = Some p \<and> (returned p = 0 \<or> returned p = - 1)"
proof (cases "help_scanned argv")
  case True
  from parseCmdLine_help [OF True] show ?thesis by auto
next
  case False
  then obtain s where "parse_loop argv (getopt_returns argv) (init_state argv) = Scanned s"
    by (rule scanned_state)
  from parseCmdLine_scanned [OF this] show ?thesis by simp
qed




section \<open>The sample window\<close>

lemma shift_down_length: "length (shift_down i new ts) = length ts"
  by (induction i new ts rule: shift_down.induct) (subst shift_down.simps, simp)

lemma shift_down_nth:
  "length ts = new + 1 \<Longrightarrow> k \<le> new \<Longrightarrow>
   shift_down i new ts ! k = (if i \<le> k \<and> k < new then ts ! (k + 1) else ts ! k)"
proof (induction i new ts rule: shift_down.induct)
  case (1 i new ts)
  show ?case
  proof (cases "i < new")
    case True
    with 1 show ?thesis
      by (subst shift_down.simps) (auto simp: nth_list_update)
  next
    case False
    then show ?thesis
      by (subst shift_down.simps) auto
  qed
qed

lemma shift_down_0:
  assumes "length ts = new + 1"
  shows "shift_down 0 new ts = tl ts @ [last ts]"
proof (rule nth_equalityI)
  show "length (shift_down 0 new ts) = length (tl ts @ [last ts])"
    using assms by (simp add: shift_down_length)
next
  fix k
  assume "k < length (shift_down 0 new ts)"
  with assms have k: "k \<le> new" by (simp add: shift_down_length)
  from assms have ne: "ts \<noteq> []" by auto
  show "shift_down 0 new ts ! k = (tl ts @ [last ts]) ! k"
  proof (cases "k < new")
    case True
    with assms k show ?thesis
      by (simp add: shift_down_nth nth_append nth_tl)
  next
    case False
    with k have "k = new" by simp
    with assms ne show ?thesis
      by (simp add: shift_down_nth nth_append last_conv_nth)
  qed
qed

lemma pad_out_length: "length (pad_out i new ts) = length ts"
  by (induction i new ts rule: pad_out.induct) (subst pad_out.simps, simp)

lemma pad_out_nth:
  "length ts = new + 1 \<Longrightarrow> 0 < i \<Longrightarrow> k \<le> new \<Longrightarrow>
   pad_out i new ts ! k = (if i \<le> k then ts ! (i - 1) else ts ! k)"
proof (induction i new ts rule: pad_out.induct)
  case (1 i new ts)
  show ?case
  proof (cases "i < new + 1")
    case True
    with 1 show ?thesis
      by (subst pad_out.simps) (auto simp: nth_list_update)
  next
    case False
    with 1 show ?thesis
      by (subst pad_out.simps) auto
  qed
qed

lemma pad_out_replicate:
  "pad_out 1 new ((replicate (new + 1) z)[0 := r]) = replicate (new + 1) r"
proof (rule nth_equalityI)
  show "length (pad_out 1 new ((replicate (new + 1) z)[0 := r])) = length (replicate (new + 1) r)"
    by (simp add: pad_out_length)
next
  fix k
  assume "k < length (pad_out 1 new ((replicate (new + 1) z)[0 := r]))"
  then have "k \<le> new" by (simp add: pad_out_length)
  then show "pad_out 1 new ((replicate (new + 1) z)[0 := r]) ! k = replicate (new + 1) r ! k"
    by (cases k) (simp_all add: pad_out_nth del: replicate.simps)
qed


lemma loop_body_good:
  assumes t: "good_tick t" and len: "length (times_w e) = nat (avg options) + 1"
  shows "loop_body options path t e =
     Inr (e\<lparr>times_w := tl (times_w e) @ [reading t],
            util_u :=
              utilisation (snd (reading t) - snd (hd (tl (times_w e) @ [reading t])))
                (ncpu options)
                (fst (reading t) - fst (hd (tl (times_w e) @ [reading t]))),
            files := (files e)(path \<mapsto>
              (if out_stored t then printf_1f (util_u e) @ ''%'' else []))\<rparr>)"
proof -
  let ?new = "nat (avg options)"
  let ?ts = "tl (times_w e) @ [reading t]"
  from t obtain uptime idletime where n: "proc_uptime t = Numbers uptime idletime"
    by (auto simp: good_tick_def split: uptime_file.splits)
  then have r: "reading t = (uptime, idletime)" by (simp add: reading_def)
  from len have tl: "length (tl (times_w e)) = ?new" by simp
  have "(tl (times_w e) @ [last (times_w e)])[length (tl (times_w e)) := reading t] = ?ts"
    by (rule list_update_length)
  then have upd: "(shift_down 0 ?new (times_w e))[?new := reading t] = ?ts"
    unfolding tl by (simp only: shift_down_0 [OF len])
  have new: "?ts ! ?new = reading t"
    using tl by (simp add: nth_append)
  have old: "?ts ! 0 = hd ?ts"
    by (simp add: hd_conv_nth)
  from t n r show ?thesis
    unfolding loop_body_def Let_def
    by (simp add: good_tick_def writeutil_def readuptime_def upd [unfolded r] new [unfolded r]
        old [unfolded r] uptimediff_def idletimediff_def)
qed

lemma sampling_loop_good:
  assumes "list_all good_tick ticks" and "length (times_w e) = nat (avg options) + 1"
  shows "\<exists>e'. sampling_loop options path ticks e = (Looping, e') \<and>
     times_w e' = drop (length ticks) (times_w e @ map reading ticks) \<and>
     stderr e' = stderr e \<and>
     (ticks \<noteq> [] \<longrightarrow>
        util_u e' =
          utilisation (snd (last (times_w e')) - snd (hd (times_w e'))) (ncpu options)
            (fst (last (times_w e')) - fst (hd (times_w e'))))"
  using assms
proof (induction ticks arbitrary: e)
  case Nil
  then show ?case by simp
next
  case (Cons t ticks)
  let ?e1 = "e\<lparr>times_w := tl (times_w e) @ [reading t],
            util_u :=
              utilisation (snd (reading t) - snd (hd (tl (times_w e) @ [reading t])))
                (ncpu options)
                (fst (reading t) - fst (hd (tl (times_w e) @ [reading t]))),
            files := (files e)(path \<mapsto>
              (if out_stored t then printf_1f (util_u e) @ ''%'' else []))\<rparr>"
  from Cons.prems have t: "good_tick t" and ts: "list_all good_tick ticks"
    and len: "length (times_w e) = nat (avg options) + 1" by simp_all
  have body: "loop_body options path t e = Inr ?e1"
    by (rule loop_body_good [OF t len])
  from len have ne: "times_w e \<noteq> []" by auto
  from len have len1: "length (times_w ?e1) = nat (avg options) + 1" by simp
  from Cons.IH [OF ts len1] obtain e' where
    e': "sampling_loop options path ticks ?e1 = (Looping, e')"
      "times_w e' = drop (length ticks) (times_w ?e1 @ map reading ticks)"
      "stderr e' = stderr ?e1"
      "ticks \<noteq> [] \<longrightarrow>
        util_u e' =
          utilisation (snd (last (times_w e')) - snd (hd (times_w e'))) (ncpu options)
            (fst (last (times_w e')) - fst (hd (times_w e')))"
    by blast
  have run: "sampling_loop options path (t # ticks) e = (Looping, e')"
    by (simp add: body e'(1))
  have "times_w ?e1 @ map reading ticks = drop 1 (times_w e @ map reading (t # ticks))"
    using ne by (cases "times_w e") simp_all
  with e'(2) have win: "times_w e' = drop (length (t # ticks)) (times_w e @ map reading (t # ticks))"
    by (metis Suc_eq_plus1 drop_drop length_Cons)
  have err: "stderr e' = stderr e" using e'(3) by simp
  have util: "util_u e' =
          utilisation (snd (last (times_w e')) - snd (hd (times_w e'))) (ncpu options)
            (fst (last (times_w e')) - fst (hd (times_w e')))"
  proof (cases "ticks = []")
    case False
    with e'(4) show ?thesis by simp
  next
    case True
    with e'(1) have "e' = ?e1" by simp
    then show ?thesis by simp
  qed
  from run win err util show ?case by blast
qed

lemma main_enters_loop:
  assumes "parseCmdLine argv = Some p" and "returned p = 0" and "\<not> given_h (filled p)"
    and "0 \<le> avg (filled p)" and "avg (filled p) < 2147483647"
    and "output_path (filled p) = Some path"
  shows "main argv (Numbers uptime idletime) ticks fs =
     sampling_loop (filled p) path ticks
       \<lparr>times_w = replicate (nat (avg (filled p)) + 1) (uptime, idletime),
        util_u = utilisation idletime (ncpu (filled p)) uptime,
        files = fs, stderr = []\<rparr>"
proof -
  have "pad_out (Suc 0) (nat (avg (filled p)))
      ((replicate (Suc (nat (avg (filled p)))) (0, 0))[0 := (uptime, idletime)]) =
    replicate (Suc (nat (avg (filled p)))) (uptime, idletime)"
    using pad_out_replicate [of "nat (avg (filled p))" "(0, 0)" "(uptime, idletime)"]
    by (simp del: replicate.simps)
  with assms show ?thesis
    by (simp add: main_def Let_def readuptime_def del: replicate.simps)
qed

section \<open>The utilisation and the window over the passes\<close>




lemma drop_snoc_shift:
  "k < length xs \<Longrightarrow> drop (Suc k) (xs @ [r]) = tl (drop k xs) @ [r]"
  by (simp add: tl_drop drop_Suc)

text \<open>
  Claim C5. When \<open>parseCmdLine\<close> has accepted the command line with \<open>avg = N\<close>, and the
  passes supplied all go through, \<open>main\<close> is still in its loop, and its window holds the
  last \<open>N + 1\<close> entries of the sequence made of \<open>N + 1\<close> copies of the first reading
  followed by the readings of the passes: before the first pass it is \<open>N + 1\<close> copies of
  the first reading, and one more pass drops its first sample and appends the new
  reading. After \<open>k \<ge> 1\<close> passes its first sample is the first reading if \<open>k \<le> N\<close>, and
  the reading of pass \<open>k - N\<close> otherwise; its last sample is the reading of pass \<open>k\<close>;
  and \<open>u\<close> is computed from these two samples and \<open>ncpu\<close> alone.
\<close>

theorem window_is_fifo:
  assumes "parseCmdLine argv = Some p" and "returned p = 0" and "\<not> given_h (filled p)"
    and "0 \<le> avg (filled p)" and "avg (filled p) < 2147483647"
    and "output_path (filled p) = Some path"
    and "list_all good_tick ticks"
  shows "\<exists>e. main argv (Numbers uptime idletime) ticks fs = (Looping, e) \<and>
     times_w e =
       drop (length ticks)
         (replicate (nat (avg (filled p)) + 1) (uptime, idletime) @ map reading ticks) \<and>
     length (times_w e) = nat (avg (filled p)) + 1 \<and>
     (ticks = [] \<longrightarrow> times_w e = replicate (nat (avg (filled p)) + 1) (uptime, idletime)) \<and>
     (\<forall>t. good_tick t \<longrightarrow>
        (\<exists>e'. main argv (Numbers uptime idletime) (ticks @ [t]) fs = (Looping, e') \<and>
           times_w e' = tl (times_w e) @ [reading t])) \<and>
     (ticks \<noteq> [] \<longrightarrow>
        hd (times_w e) =
          (if length ticks \<le> nat (avg (filled p)) then (uptime, idletime)
           else reading (ticks ! (length ticks - nat (avg (filled p)) - 1))) \<and>
        last (times_w e) = reading (last ticks) \<and>
        util_u e =
          utilisation (snd (last (times_w e)) - snd (hd (times_w e))) (ncpu (filled p))
            (fst (last (times_w e)) - fst (hd (times_w e))))"
proof -
  let ?N = "nat (avg (filled p))"
  let ?s0 = "(uptime, idletime)"
  let ?e0 = "\<lparr>times_w = replicate (?N + 1) ?s0,
        util_u = utilisation idletime (ncpu (filled p)) uptime, files = fs, stderr = []\<rparr>"
  have enter: "\<And>tk. main argv (Numbers uptime idletime) tk fs =
      sampling_loop (filled p) path tk ?e0"
    by (rule main_enters_loop [OF assms(1-6)])
  have len0: "length (times_w ?e0) = ?N + 1" by simp
  from sampling_loop_good [OF assms(7) len0, of path] obtain e where
    e: "sampling_loop (filled p) path ticks ?e0 = (Looping, e)"
      "times_w e = drop (length ticks) (times_w ?e0 @ map reading ticks)"
      "ticks \<noteq> [] \<longrightarrow>
        util_u e =
          utilisation (snd (last (times_w e)) - snd (hd (times_w e))) (ncpu (filled p))
            (fst (last (times_w e)) - fst (hd (times_w e)))"
    by blast
  let ?all = "replicate (?N + 1) ?s0 @ map reading ticks"
  have win: "times_w e = drop (length ticks) ?all" using e(2) by simp
  have len: "length (times_w e) = ?N + 1" unfolding win by simp
  have init: "ticks = [] \<longrightarrow> times_w e = replicate (?N + 1) ?s0" unfolding win by simp
  have next_tick: "\<forall>t. good_tick t \<longrightarrow>
        (\<exists>e'. main argv (Numbers uptime idletime) (ticks @ [t]) fs = (Looping, e') \<and>
           times_w e' = tl (times_w e) @ [reading t])"
  proof (intro allI impI)
    fix t
    assume "good_tick t"
    with assms(7) have "list_all good_tick (ticks @ [t])" by simp
    from sampling_loop_good [OF this len0, of path] obtain e' where
      e': "sampling_loop (filled p) path (ticks @ [t]) ?e0 = (Looping, e')"
        "times_w e' = drop (length (ticks @ [t])) (times_w ?e0 @ map reading (ticks @ [t]))"
      by blast
    have "length ticks < length ?all" by simp
    from drop_snoc_shift [OF this, of "reading t"] e'(2)
    have "times_w e' = tl (times_w e) @ [reading t]"
      unfolding win by simp
    with e'(1) show "\<exists>e'. main argv (Numbers uptime idletime) (ticks @ [t]) fs = (Looping, e') \<and>
           times_w e' = tl (times_w e) @ [reading t]"
      by (simp add: enter)
  qed
  have ends: "ticks \<noteq> [] \<longrightarrow>
        hd (times_w e) =
          (if length ticks \<le> ?N then ?s0 else reading (ticks ! (length ticks - ?N - 1))) \<and>
        last (times_w e) = reading (last ticks)"
  proof
    assume ne: "ticks \<noteq> []"
    have "hd (times_w e) = ?all ! length ticks"
      unfolding win by (simp add: hd_drop_conv_nth)
    also have "\<dots> = (if length ticks \<le> ?N then ?s0 else reading (ticks ! (length ticks - ?N - 1)))"
      by (auto simp: nth_append not_le simp del: replicate.simps)
    finally have h: "hd (times_w e) =
      (if length ticks \<le> ?N then ?s0 else reading (ticks ! (length ticks - ?N - 1)))" .
    have "last (times_w e) = last ?all"
      unfolding win by (simp add: last_drop)
    also have "\<dots> = reading (last ticks)"
      using ne by (simp add: last_map)
    finally have "last (times_w e) = reading (last ticks)" .
    with h show "hd (times_w e) =
          (if length ticks \<le> ?N then ?s0 else reading (ticks ! (length ticks - ?N - 1))) \<and>
        last (times_w e) = reading (last ticks)" by simp
  qed
  show ?thesis
    apply (rule exI [of _ e])
    using e(1) e(3) win len init next_tick ends by (simp add: enter)
qed

theorem window_is_fifo_witness:
  "parseCmdLine [''cpuwatch'', ''-o'', ''out'', ''-c'', ''2'', ''-n'', ''2''] =
     Some \<lparr>returned = 0,
           filled = \<lparr>output_path = Some ''out'', interval = 1, ncpu = 2, avg = 2,
                     given_h = False\<rparr>,
           printed = []\<rparr> \<and>
   list_all good_tick
     [\<lparr>out_open = True, out_stored = True, slept = Usleep_0, proc_uptime = Numbers 101 (161 / 2)\<rparr>,
      \<lparr>out_open = True, out_stored = True, slept = Usleep_0, proc_uptime = Numbers 102 81\<rparr>,
      \<lparr>out_open = True, out_stored = True, slept = Usleep_0, proc_uptime = Numbers 103 85\<rparr>,
      \<lparr>out_open = True, out_stored = True, slept = Usleep_0, proc_uptime = Numbers 104 83\<rparr>] \<and>
   (\<exists>e. main [''cpuwatch'', ''-o'', ''out'', ''-c'', ''2'', ''-n'', ''2''] (Numbers 100 80)
      [\<lparr>out_open = True, out_stored = True, slept = Usleep_0, proc_uptime = Numbers 101 (161 / 2)\<rparr>,
       \<lparr>out_open = True, out_stored = True, slept = Usleep_0, proc_uptime = Numbers 102 81\<rparr>,
       \<lparr>out_open = True, out_stored = True, slept = Usleep_0, proc_uptime = Numbers 103 85\<rparr>,
       \<lparr>out_open = True, out_stored = True, slept = Usleep_0, proc_uptime = Numbers 104 83\<rparr>]
      Map.empty = (Looping, e) \<and>
      times_w e = [(102, 81), (103, 85), (104, 83)] \<and> util_u e = Finite 50)"
proof -
  let ?argv = "[''cpuwatch'', ''-o'', ''out'', ''-c'', ''2'', ''-n'', ''2'']"
  let ?f = "\<lparr>output_path = Some ''out'', interval = 1, ncpu = 2, avg = 2, given_h = False\<rparr>"
  let ?p = "\<lparr>returned = 0, filled = ?f, printed = []\<rparr>"
  let ?ticks = "[\<lparr>out_open = True, out_stored = True, slept = Usleep_0, proc_uptime = Numbers 101 (161 / 2)\<rparr>,
      \<lparr>out_open = True, out_stored = True, slept = Usleep_0, proc_uptime = Numbers 102 81\<rparr>,
      \<lparr>out_open = True, out_stored = True, slept = Usleep_0, proc_uptime = Numbers 103 85\<rparr>,
      \<lparr>out_open = True, out_stored = True, slept = Usleep_0, proc_uptime = Numbers 104 83\<rparr>]"
  have parse: "parseCmdLine ?argv = Some ?p" by code_simp
  have g: "list_all good_tick ?ticks" by (simp add: good_tick_def)
  have h: "returned ?p = 0" "\<not> given_h (filled ?p)" "0 \<le> avg (filled ?p)"
    "avg (filled ?p) < 2147483647" "output_path (filled ?p) = Some ''out''"
    by simp_all
  from window_is_fifo [OF parse h g, of 100 80 Map.empty] obtain e where
    e: "main ?argv (Numbers 100 80) ?ticks Map.empty = (Looping, e)"
      "times_w e =
        drop (length ?ticks) (replicate (nat (avg (filled ?p)) + 1) (100, 80) @ map reading ?ticks)"
      "?ticks \<noteq> [] \<longrightarrow>
        hd (times_w e) =
          (if length ?ticks \<le> nat (avg (filled ?p)) then (100, 80)
           else reading (?ticks ! (length ?ticks - nat (avg (filled ?p)) - 1))) \<and>
        last (times_w e) = reading (last ?ticks) \<and>
        util_u e =
          utilisation (snd (last (times_w e)) - snd (hd (times_w e))) (ncpu (filled ?p))
            (fst (last (times_w e)) - fst (hd (times_w e)))"
    by blast
  have three: "nat 2 + 1 = Suc (Suc (Suc 0))" by simp
  from e(2) have win: "times_w e = [(102, 81), (103, 85), (104, 83)]"
    by (simp add: reading_def three)
  from e(3) have "util_u e = Finite 50"
    unfolding win by (simp add: utilisation_def)
  with parse g e(1) win show ?thesis by blast
qed

section \<open>The output file\<close>






section \<open>A window of one slot, and failures\<close>

text \<open>
  Claim C10. The command line \<open>-o out -c 1 -n 0\<close> is accepted, with \<open>avg = 0\<close>. With it the
  window has one slot, so after every pass (the \<open>k\<close>-th of any passes that go through,
  whatever their readings are) the oldest and the newest sample are the same one:
  \<open>uptimediff\<close> is 0, the division by it is a division of zero by zero, and \<open>u\<close> is a
  NaN.
\<close>

theorem zero_samples_divide_by_zero:
  assumes "list_all good_tick ticks" and "0 < k" and "k \<le> length ticks"
  shows "parseCmdLine [''cpuwatch'', ''-o'', ''out'', ''-c'', ''1'', ''-n'', ''0''] =
      Some \<lparr>returned = 0,
            filled = \<lparr>output_path = Some ''out'', interval = 1, ncpu = 1, avg = 0,
                      given_h = False\<rparr>,
            printed = []\<rparr> \<and>
    (\<exists>e. main [''cpuwatch'', ''-o'', ''out'', ''-c'', ''1'', ''-n'', ''0'']
            (Numbers uptime idletime) (take k ticks) fs = (Looping, e) \<and>
       times_w e = [reading (ticks ! (k - 1))] \<and>
       uptimediff (times_w e) 0 = 0 \<and>
       util_u e = utilisation (idletimediff (times_w e) 0) 1 (uptimediff (times_w e) 0) \<and>
       util_u e = NaN)"
proof -
  let ?argv = "[''cpuwatch'', ''-o'', ''out'', ''-c'', ''1'', ''-n'', ''0'']"
  let ?f = "\<lparr>output_path = Some ''out'', interval = 1, ncpu = 1, avg = 0, given_h = False\<rparr>"
  let ?p = "\<lparr>returned = 0, filled = ?f, printed = []\<rparr>"
  let ?e0 = "\<lparr>times_w = replicate (nat (avg (filled ?p)) + 1) (uptime, idletime),
        util_u = utilisation idletime (ncpu (filled ?p)) uptime, files = fs, stderr = []\<rparr>"
  let ?tk = "take k ticks"
  have parse: "parseCmdLine ?argv = Some ?p" by code_simp
  have enter: "main ?argv (Numbers uptime idletime) ?tk fs =
      sampling_loop (filled ?p) ''out'' ?tk ?e0"
    by (rule main_enters_loop [OF parse]) simp_all
  from assms(1) have good: "list_all good_tick ?tk"
    by (auto simp: list_all_iff dest: in_set_takeD)
  from assms have ne: "?tk \<noteq> []" and lk: "length ?tk = k" by auto
  have len0: "length (times_w ?e0) = nat (avg (filled ?p)) + 1" by simp
  from sampling_loop_good [OF good len0, of "''out''"] ne obtain e where
    e: "sampling_loop (filled ?p) ''out'' ?tk ?e0 = (Looping, e)"
      "times_w e = drop (length ?tk) (times_w ?e0 @ map reading ?tk)"
      "util_u e =
          utilisation (snd (last (times_w e)) - snd (hd (times_w e))) (ncpu (filled ?p))
            (fst (last (times_w e)) - fst (hd (times_w e)))"
    by blast
  from assms have "drop k ((uptime, idletime) # map reading ?tk) = [reading (ticks ! (k - 1))]"
    by (cases k) (simp_all add: drop_map drop_take take_Suc_conv_app_nth)
  with e(2) lk have win: "times_w e = [reading (ticks ! (k - 1))]" by simp
  have zero: "uptimediff (times_w e) 0 = 0" "idletimediff (times_w e) 0 = 0"
    by (simp_all add: win uptimediff_def idletimediff_def)
  have u: "util_u e = utilisation (idletimediff (times_w e) 0) 1 (uptimediff (times_w e) 0)"
    using e(3) by (simp add: win uptimediff_def idletimediff_def)
  have nan: "util_u e = NaN"
    unfolding u zero by (simp add: utilisation_def)
  from parse enter e(1) win zero(1) u nan show ?thesis by simp
qed

theorem zero_samples_divide_by_zero_witness:
  "list_all good_tick
     [\<lparr>out_open = True, out_stored = True, slept = Usleep_0, proc_uptime = Numbers 101 (161 / 2)\<rparr>,
      \<lparr>out_open = True, out_stored = True, slept = Usleep_EINTR, proc_uptime = Numbers 102 81\<rparr>] \<and>
   (\<exists>e. main [''cpuwatch'', ''-o'', ''out'', ''-c'', ''1'', ''-n'', ''0''] (Numbers 100 80)
      [\<lparr>out_open = True, out_stored = True, slept = Usleep_0, proc_uptime = Numbers 101 (161 / 2)\<rparr>,
       \<lparr>out_open = True, out_stored = True, slept = Usleep_EINTR, proc_uptime = Numbers 102 81\<rparr>]
      Map.empty = (Looping, e) \<and>
      times_w e = [(102, 81)] \<and> uptimediff (times_w e) 0 = 0 \<and> util_u e = NaN)"
proof -
  let ?ticks = "[\<lparr>out_open = True, out_stored = True, slept = Usleep_0, proc_uptime = Numbers 101 (161 / 2)\<rparr>,
      \<lparr>out_open = True, out_stored = True, slept = Usleep_EINTR, proc_uptime = Numbers 102 81\<rparr>]"
  have g: "list_all good_tick ?ticks" by (simp add: good_tick_def)
  have k: "0 < (2::nat)" "2 \<le> length ?ticks" by simp_all
  from zero_samples_divide_by_zero [OF g k, of 100 80 Map.empty] g show ?thesis
    by (auto simp: reading_def)
qed

text \<open>
  Claim C8. \<open>writeutil\<close> does not look at what \<open>fprintf\<close> and \<open>fclose\<close> return, though its
  own comment promises -1 on failure. In a run with one CPU whose first pass opens the
  file but fails to write to it (a full disk, say), \<open>main\<close> does not return: it stays in
  its loop, prints nothing to \<open>stderr\<close>, and its second pass writes the next value,
  \<open>50.0%\<close>.
\<close>

theorem failed_write_goes_unnoticed:
  "fst (main [''cpuwatch'', ''-o'', ''out'', ''-c'', ''1''] (Numbers 100 80)
     [\<lparr>out_open = True, out_stored = False, slept = Usleep_0, proc_uptime = Numbers 101 (161 / 2)\<rparr>]
     Map.empty) = Looping \<and>
   files (snd (main [''cpuwatch'', ''-o'', ''out'', ''-c'', ''1''] (Numbers 100 80)
     [\<lparr>out_open = True, out_stored = False, slept = Usleep_0, proc_uptime = Numbers 101 (161 / 2)\<rparr>]
     Map.empty)) ''out'' = Some [] \<and>
   fst (main [''cpuwatch'', ''-o'', ''out'', ''-c'', ''1''] (Numbers 100 80)
     [\<lparr>out_open = True, out_stored = False, slept = Usleep_0, proc_uptime = Numbers 101 (161 / 2)\<rparr>,
      \<lparr>out_open = True, out_stored = True, slept = Usleep_0, proc_uptime = Numbers 102 81\<rparr>]
     Map.empty) = Looping \<and>
   files (snd (main [''cpuwatch'', ''-o'', ''out'', ''-c'', ''1''] (Numbers 100 80)
     [\<lparr>out_open = True, out_stored = False, slept = Usleep_0, proc_uptime = Numbers 101 (161 / 2)\<rparr>,
      \<lparr>out_open = True, out_stored = True, slept = Usleep_0, proc_uptime = Numbers 102 81\<rparr>]
     Map.empty)) ''out'' = Some ''50.0%'' \<and>
   stderr (snd (main [''cpuwatch'', ''-o'', ''out'', ''-c'', ''1''] (Numbers 100 80)
     [\<lparr>out_open = True, out_stored = False, slept = Usleep_0, proc_uptime = Numbers 101 (161 / 2)\<rparr>,
      \<lparr>out_open = True, out_stored = True, slept = Usleep_0, proc_uptime = Numbers 102 81\<rparr>]
     Map.empty)) = []"
  by code_simp

text \<open>
  The failures that the program does look at end the run at once: when the output file
  does not open, \<open>usleep\<close> fails otherwise than by an interruption, or \<open>/proc/uptime\<close>
  cannot be opened or read, \<open>main\<close> prints a line and returns -1 in that pass, whatever
  the later passes would bring; no file but the output file has changed, and not even
  that one when it did not open.
\<close>

theorem checked_failure_is_fatal:
  assumes "\<not> out_open t \<or> slept t = Usleep_failure \<or> proc_uptime t = No_file \<or>
    proc_uptime t = No_numbers"
  shows "\<exists>e'. sampling_loop options path (t # ticks) e = (Exit (- 1), e') \<and>
     stderr e' \<noteq> stderr e \<and>
     (\<forall>q. q \<noteq> path \<longrightarrow> files e' q = files e q) \<and>
     (\<not> out_open t \<longrightarrow> files e' = files e)"
  using assms
  by (auto simp: loop_body_def Let_def writeutil_def readuptime_def split: sum.splits)

theorem checked_failure_is_fatal_witness:
  "\<not> out_open \<lparr>out_open = False, out_stored = False, slept = Usleep_0, proc_uptime = Numbers 101 81\<rparr> \<and>
   (\<exists>e'. sampling_loop
        \<lparr>output_path = Some ''out'', interval = 1, ncpu = 1, avg = 1, given_h = False\<rparr> ''out''
        [\<lparr>out_open = False, out_stored = False, slept = Usleep_0, proc_uptime = Numbers 101 81\<rparr>,
         \<lparr>out_open = True, out_stored = True, slept = Usleep_0, proc_uptime = Numbers 102 82\<rparr>]
        \<lparr>times_w = [(100, 80), (100, 80)], util_u = Finite 20, files = Map.empty, stderr = []\<rparr>
      = (Exit (- 1), e') \<and>
      stderr e' \<noteq> [] \<and> files e' ''out'' = None)"
proof -
  let ?t = "\<lparr>out_open = False, out_stored = False, slept = Usleep_0, proc_uptime = Numbers 101 81\<rparr>"
  let ?e = "\<lparr>times_w = [(100, 80), (100, 80)], util_u = Finite 20, files = Map.empty, stderr = []\<rparr>"
  have h: "\<not> out_open ?t \<or> slept ?t = Usleep_failure \<or> proc_uptime ?t = No_file \<or>
    proc_uptime ?t = No_numbers" by simp
  have n: "\<not> out_open ?t" by simp
  from checked_failure_is_fatal [OF h, of
      "\<lparr>output_path = Some ''out'', interval = 1, ncpu = 1, avg = 1, given_h = False\<rparr>" "''out''"
      "[\<lparr>out_open = True, out_stored = True, slept = Usleep_0, proc_uptime = Numbers 102 82\<rparr>]" ?e]
  show ?thesis
    using n by auto
qed

end
